theory Spec2Isabelle
  imports Complex_Main "HOL-Library.Word" "HOL-Library.Log_Nat"
begin

unbundle bit_operations_syntax

section \<open>The .lssnap point-cloud viewer\<close>

text \<open>
  A shallow embedding of \<^verbatim>\<open>src/components/PointCloudViewer.tsx\<close>, which exists
  in two variants: the orbit variant (OrbitControls, height fraction 0.45, framing with
  +Y up) and the trackball variant (TrackballControls, height fraction 0.5, framing with
  +Z up, manual auto-rotation). The function \<^verbatim>\<open>parseLssnap\<close> is the same text in both.

  Numbers. A JavaScript number is modelled as a \<^typ>\<open>real\<close> and a \<^verbatim>\<open>Float32Array\<close> as
  a \<^typ>\<open>real list\<close> of the values it holds. The decoder's two roundings are part of the
  model: the binary64 quotient of the division and the binary32 value that the store into
  a \<^verbatim>\<open>Float32Array\<close> keeps of it. The arithmetic of the filter, of the framing and of the
  controls is over the reals: its binary64 rounding is not modelled. Integers read from
  the buffer are machine words, read as signed or unsigned as the \<^verbatim>\<open>DataView\<close> accessor
  says.
\<close>

subsection \<open>Binary floating point\<close>

text \<open>
  Rounding to the nearest value of a binary format with \<open>p\<close> significant bits and least
  normal exponent \<open>emin\<close>, ties to the even significand (IEEE 754 roundTiesToEven).
  \<open>binexp x\<close> is the exponent of a positive \<open>x\<close>, the integer \<open>e\<close> with
  \<open>2\<^sup>e \<le> x < 2\<^sup>e\<^sup>+\<^sup>1\<close>; below the normal range the spacing of the format stays that of
  \<open>emin\<close> (subnormal numbers). Overflow to an infinity is not modelled: the decoder's values
  are below 33 in magnitude.
\<close>

definition binexp :: "real \<Rightarrow> int" where
  "binexp x = (if 1 \<le> x then bitlen \<lfloor>x\<rfloor> - 1 else - bitlen (\<lceil>1 / x\<rceil> - 1))"

definition round_half_even :: "real \<Rightarrow> int" where
  "round_half_even y =
     (let f = \<lfloor>y\<rfloor>; d = y - real_of_int f
      in if d < 1 / 2 then f else if d > 1 / 2 then f + 1 else if even f then f else f + 1)"

definition round_binary :: "nat \<Rightarrow> int \<Rightarrow> real \<Rightarrow> real" where
  "round_binary p emin x =
     (if x = 0 then 0
      else (let e = max (binexp \<bar>x\<bar>) emin;
                ulp = 2 powi (e - int p + 1)
            in real_of_int (round_half_even (x / ulp)) * ulp))"

text \<open>
  \<^verbatim>\<open>Math.fround\<close>, the conversion that a store into a \<^verbatim>\<open>Float32Array\<close> applies (binary32:
  24 significant bits, least normal exponent \<open>-126\<close>), and the division of two numbers
  (binary64: 53 significant bits, least normal exponent \<open>-1022\<close>; one correctly rounded
  operation).
\<close>

definition fround :: "real \<Rightarrow> real" where
  "fround = round_binary 24 (- 126)"

definition js_div :: "real \<Rightarrow> real \<Rightarrow> real" where
  "js_div a b = round_binary 53 (- 1022) (a / b)"

subsection \<open>Buffers and DataView accessors\<close>

type_synonym byte = "8 word"

text \<open>
  What \<^verbatim>\<open>parseLssnap\<close> can throw: its own \<^verbatim>\<open>Error('Not a valid .lssnap file ...')\<close>
  (the message is left out), and the \<^verbatim>\<open>RangeError\<close> of a \<^verbatim>\<open>DataView\<close> read outside
  the buffer or of a typed array allocated with a negative length.
\<close>

datatype error = FormatError | RangeError

text \<open>\<^verbatim>\<open>view.getUint8(i)\<close>: a \<^verbatim>\<open>RangeError\<close> when \<open>i\<close> is not inside the buffer.\<close>

definition getUint8 :: "byte list \<Rightarrow> nat \<Rightarrow> error + byte" where
  "getUint8 buf i = (if i < length buf then Inr (buf ! i) else Inl RangeError)"

text \<open>\<^verbatim>\<open>view.getInt16(i, true)\<close>: two bytes, little-endian, read as two's complement.\<close>

definition le16 :: "byte \<Rightarrow> byte \<Rightarrow> 16 word" where
  "le16 b0 b1 = word_cat b1 b0"

definition getInt16 :: "byte list \<Rightarrow> nat \<Rightarrow> error + int" where
  "getInt16 buf i =
     (if i + 2 \<le> length buf then Inr (sint (le16 (buf ! i) (buf ! (i + 1))))
      else Inl RangeError)"

text \<open>\<^verbatim>\<open>view.getInt32(i, true)\<close>: four bytes, little-endian, read as two's complement.\<close>

definition le32 :: "byte \<Rightarrow> byte \<Rightarrow> byte \<Rightarrow> byte \<Rightarrow> 32 word" where
  "le32 b0 b1 b2 b3 = word_cat (le16 b2 b3) (le16 b0 b1)"

definition getInt32 :: "byte list \<Rightarrow> nat \<Rightarrow> error + int" where
  "getInt32 buf i =
     (if i + 4 \<le> length buf
      then Inr (sint (le32 (buf ! i) (buf ! (i + 1)) (buf ! (i + 2)) (buf ! (i + 3))))
      else Inl RangeError)"

subsection \<open>JSON values\<close>

text \<open>
  \<^verbatim>\<open>JSON.parse\<close> returns a value of any shape; \<^verbatim>\<open>parseLssnap\<close> stores it in the field
  \<^verbatim>\<open>annotations\<close> without looking at it (the TypeScript type \<^verbatim>\<open>Annotation[]\<close> is erased
  at run time), so the field holds a JSON value.
\<close>

datatype json =
    JNull
  | JBool bool
  | JNum real
  | JStr string
  | JArr "json list"
  | JObj "(string \<times> json) list"

text \<open>
  The platform's \<^verbatim>\<open>JSON.parse(new TextDecoder().decode(bytes))\<close> is a parameter of the
  model, of this type: \<open>None\<close> when \<^verbatim>\<open>JSON.parse\<close> throws a \<^verbatim>\<open>SyntaxError\<close> (the decoder
  itself never throws in its default, non-fatal mode).
\<close>

type_synonym json_parser = "byte list \<Rightarrow> json option"

text \<open>
  For theorems at concrete buffers: \<^verbatim>\<open>JSON.parse\<close> on the two texts \<^verbatim>\<open>{}\<close> and \<^verbatim>\<open>[]\<close>,
  where it returns the empty object and the empty array. Every other text is rejected
  here; the closed theorems below consult it on these two texts and on the text \<^verbatim>\<open>{\<close>
  only, which \<^verbatim>\<open>JSON.parse\<close> rejects as well.
\<close>

definition json_parse_sample :: json_parser where
  "json_parse_sample bs =
     (if bs = [0x7B, 0x7D] then Some (JObj [])
      else if bs = [0x5B, 0x5D] then Some (JArr [])
      else None)"

subsection \<open>parseLssnap\<close>

record LssnapData =
  vertexCount :: int
  positions :: "real list"
  colors :: "real list"
  annotations :: json

text \<open>
  The vertex loop (\<^verbatim>\<open>for (let i = 0; i < vertexCount; i++)\<close>): six reads at \<open>offset\<close>,
  six stores at \<open>i * 3\<close>, \<open>offset += 9\<close>. \<open>read_vertex\<close> gives the six values as the two
  arrays keep them: the quotient, rounded to binary32 by the store. The first read outside the buffer throws, and
  the arrays, which are local to the function, are lost with the stores made so far. The
  loop returns the two arrays and the final offset.
\<close>

definition read_vertex :: "byte list \<Rightarrow> nat \<Rightarrow> error + (real list \<times> real list)" where
  "read_vertex buf offset =
     (case getInt16 buf offset of Inl e \<Rightarrow> Inl e | Inr x \<Rightarrow>
     (case getInt16 buf (offset + 2) of Inl e \<Rightarrow> Inl e | Inr y \<Rightarrow>
     (case getInt16 buf (offset + 4) of Inl e \<Rightarrow> Inl e | Inr z \<Rightarrow>
     (case getUint8 buf (offset + 6) of Inl e \<Rightarrow> Inl e | Inr r \<Rightarrow>
     (case getUint8 buf (offset + 7) of Inl e \<Rightarrow> Inl e | Inr g \<Rightarrow>
     (case getUint8 buf (offset + 8) of Inl e \<Rightarrow> Inl e | Inr b \<Rightarrow>
        Inr ([fround (js_div (real_of_int x) 1000), fround (js_div (real_of_int y) 1000),
              fround (js_div (real_of_int z) 1000)],
             [fround (js_div (real (unat r)) 255), fround (js_div (real (unat g)) 255),
              fround (js_div (real (unat b)) 255)])))))))"

function vertex_loop ::
  "byte list \<Rightarrow> nat \<Rightarrow> nat \<Rightarrow> nat \<Rightarrow> real list \<Rightarrow> real list \<Rightarrow>
   error + (real list \<times> real list \<times> nat)" where
  "vertex_loop buf n i offset pos col =
     (if i < n then
        (case read_vertex buf offset of
           Inl e \<Rightarrow> Inl e
         | Inr (p, c) \<Rightarrow>
             vertex_loop buf n (Suc i) (offset + 9)
               (pos[i * 3 := p ! 0, i * 3 + 1 := p ! 1, i * 3 + 2 := p ! 2])
               (col[i * 3 := c ! 0, i * 3 + 1 := c ! 1, i * 3 + 2 := c ! 2]))
      else Inr (pos, col, offset))"
  by pat_completeness auto
termination
  by (relation "measure (\<lambda>(buf, n, i, offset, pos, col). n - i)") auto

declare vertex_loop.simps [simp del]

text \<open>
  The annotation block: \<^verbatim>\<open>new Uint8Array(buffer, offset, annotJsonLen)\<close> throws a
  \<^verbatim>\<open>RangeError\<close> when the range is not inside the buffer, \<^verbatim>\<open>JSON.parse\<close> throws on
  malformed text; both are inside the \<^verbatim>\<open>try\<close>, whose \<^verbatim>\<open>catch\<close> leaves
  \<^verbatim>\<open>annotations\<close> at its initial \<^verbatim>\<open>[]\<close>.
\<close>

definition parse_annotations :: "json_parser \<Rightarrow> byte list \<Rightarrow> nat \<Rightarrow> int \<Rightarrow> json" where
  "parse_annotations json_parse buf offset annotJsonLen =
     (if annotJsonLen > 0 then
        (if offset + nat annotJsonLen \<le> length buf then
           (case json_parse (take (nat annotJsonLen) (drop offset buf)) of
              Some v \<Rightarrow> v
            | None \<Rightarrow> JArr [])
         else JArr [])
      else JArr [])"

definition parseLssnap :: "json_parser \<Rightarrow> byte list \<Rightarrow> error + LssnapData" where
  "parseLssnap json_parse buf =
     (case getUint8 buf 0 of Inl e \<Rightarrow> Inl e | Inr m0 \<Rightarrow>
     (case getUint8 buf 1 of Inl e \<Rightarrow> Inl e | Inr m1 \<Rightarrow>
     (case getUint8 buf 2 of Inl e \<Rightarrow> Inl e | Inr m2 \<Rightarrow>
     (case getUint8 buf 3 of Inl e \<Rightarrow> Inl e | Inr version \<Rightarrow>
        if [m0, m1, m2] \<noteq> [0x4C, 0x53, 0x53] \<or> version \<noteq> 1 then Inl FormatError
        else
     (case getInt32 buf 4 of Inl e \<Rightarrow> Inl e | Inr vc \<Rightarrow>
     (case getInt32 buf 8 of Inl e \<Rightarrow> Inl e | Inr annotJsonLen \<Rightarrow>
        if vc < 0 then Inl RangeError
        else
     (case vertex_loop buf (nat vc) 0 16
             (replicate (nat (vc * 3)) 0) (replicate (nat (vc * 3)) 0) of
        Inl e \<Rightarrow> Inl e
      | Inr (pos, col, offset) \<Rightarrow>
          Inr \<lparr>vertexCount = vc, positions = pos, colors = col,
               annotations = parse_annotations json_parse buf offset annotJsonLen\<rparr>)))))))"

subsection \<open>Vectors and bounding boxes (three.js)\<close>

datatype vec3 = Vector3 (vx: real) (vy: real) (vz: real)

text \<open>
  \<^verbatim>\<open>new THREE.BufferAttribute(array, 3)\<close>: item \<open>i\<close> is the point
  \<open>(array[3i], array[3i+1], array[3i+2])\<close>. The arrays that reach it (the decoder's and the
  filter's) have a length that is a multiple of 3.
\<close>

fun points_of :: "real list \<Rightarrow> vec3 list" where
  "points_of (a # b # c # rest) = Vector3 a b c # points_of rest"
| "points_of _ = []"

text \<open>
  three.js's \<^verbatim>\<open>Box3\<close>. The empty box has \<open>min = +\<infinity>\<close> and \<open>max = -\<infinity>\<close>; it is a
  constructor of its own here. \<^verbatim>\<open>expandByPoint\<close> takes the componentwise minimum and
  maximum, \<^verbatim>\<open>computeBoundingBox\<close> starts from the empty box and expands by every point,
  \<^verbatim>\<open>getCenter\<close> is \<open>(min + max) * 0.5\<close> and \<^verbatim>\<open>getSize\<close> is \<open>max - min\<close>, both the
  zero vector on the empty box.
\<close>

datatype box3 = EmptyBox | Box3 (box_min: vec3) (box_max: vec3)

fun expandByPoint :: "box3 \<Rightarrow> vec3 \<Rightarrow> box3" where
  "expandByPoint EmptyBox p = Box3 p p"
| "expandByPoint (Box3 mn mx) p =
     Box3 (Vector3 (min (vx mn) (vx p)) (min (vy mn) (vy p)) (min (vz mn) (vz p)))
          (Vector3 (max (vx mx) (vx p)) (max (vy mx) (vy p)) (max (vz mx) (vz p)))"

fun setFromPoints :: "box3 \<Rightarrow> vec3 list \<Rightarrow> box3" where
  "setFromPoints box [] = box"
| "setFromPoints box (p # ps) = setFromPoints (expandByPoint box p) ps"

definition computeBoundingBox :: "real list \<Rightarrow> box3" where
  "computeBoundingBox array = setFromPoints EmptyBox (points_of array)"

fun getCenter :: "box3 \<Rightarrow> vec3" where
  "getCenter EmptyBox = Vector3 0 0 0"
| "getCenter (Box3 mn mx) =
     Vector3 ((vx mn + vx mx) * 0.5) ((vy mn + vy mx) * 0.5) ((vz mn + vz mx) * 0.5)"

fun getSize :: "box3 \<Rightarrow> vec3" where
  "getSize EmptyBox = Vector3 0 0 0"
| "getSize (Box3 mn mx) = Vector3 (vx mx - vx mn) (vy mx - vy mn) (vz mx - vz mn)"

subsection \<open>The subject filter\<close>

text \<open>
  The loop \<^verbatim>\<open>for (let vi = 0; vi < data.vertexCount; vi++)\<close> with its two growing arrays
  \<^verbatim>\<open>filtPos\<close> and \<^verbatim>\<open>filtCol\<close>. It reads \<open>positions\<close> and \<open>colors\<close> at \<open>vi*3 .. vi*3+2\<close>;
  these reads are inside the arrays for every snapshot that \<^verbatim>\<open>parseLssnap\<close> returns, the
  only snapshots the filter is run on.
\<close>

function filter_loop ::
  "LssnapData \<Rightarrow> real \<Rightarrow> real \<Rightarrow> real \<Rightarrow> nat \<Rightarrow> real list \<Rightarrow> real list \<Rightarrow>
   real list \<times> real list" where
  "filter_loop data xCut zCut yCutMax vi filtPos filtCol =
     (if int vi < vertexCount data then
        (let x = positions data ! (vi * 3);
             y = positions data ! (vi * 3 + 1);
             z = positions data ! (vi * 3 + 2)
         in if x \<ge> xCut \<and> z \<le> zCut \<and> y \<ge> yCutMax
            then filter_loop data xCut zCut yCutMax (Suc vi) (filtPos @ [x, y, z])
                   (filtCol @ [colors data ! (vi * 3), colors data ! (vi * 3 + 1),
                               colors data ! (vi * 3 + 2)])
            else filter_loop data xCut zCut yCutMax (Suc vi) filtPos filtCol)
      else (filtPos, filtCol))"
  by pat_completeness auto
termination
  by (relation "measure (\<lambda>(data, xCut, zCut, yCutMax, vi, filtPos, filtCol).
        nat (vertexCount data) - vi)") auto

declare filter_loop.simps [simp del]

text \<open>
  The filter block, with the two fractions that the source writes as constants:
  \<open>0.75\<close> and \<open>0.45\<close> in the orbit variant, \<open>0.75\<close> and \<open>0.5\<close> in the trackball variant.
  The model follows the statements; the three comment lines above them in the orbit
  variant (\<^verbatim>\<open>back 55%\<close>, \<^verbatim>\<open>bottom 70%\<close>) describe other cuts than the ones computed.
  On the empty box \<open>min\<close> is \<open>+\<infinity>\<close>, so \<open>yCutMax\<close> is \<open>+\<infinity>\<close> and no point passes
  \<open>y >= yCutMax\<close>: the result is empty.
\<close>

definition subject_filter :: "real \<Rightarrow> real \<Rightarrow> LssnapData \<Rightarrow> real list \<times> real list" where
  "subject_filter depthFraction heightFraction data =
     (let fullBox = computeBoundingBox (positions data);
          fullCenter = getCenter fullBox;
          fullSize = getSize fullBox
      in case fullBox of
           EmptyBox \<Rightarrow> ([], [])
         | Box3 mn mx \<Rightarrow>
             (let xCut = vx fullCenter;
                  zCut = vz mn + vz fullSize * depthFraction;
                  yCutMax = vy mn + vy fullSize * heightFraction
              in filter_loop data xCut zCut yCutMax 0 [] []))"

definition filter_orbit :: "LssnapData \<Rightarrow> real list \<times> real list" where
  "filter_orbit = subject_filter 0.75 0.45"

definition filter_trackball :: "LssnapData \<Rightarrow> real list \<times> real list" where
  "filter_trackball = subject_filter 0.75 0.5"

subsection \<open>Camera, controls and framing\<close>

text \<open>
  The part of the trackball variant's state that framing and the frame callback touch:
  the camera's position and up vector, the point that \<^verbatim>\<open>camera.lookAt\<close> was last called
  with, the controls' target, and the \<^verbatim>\<open>autoRotating\<close> flag.
\<close>

record viewer =
  cam_position :: vec3
  cam_up :: vec3
  cam_lookAt :: "vec3 option"
  controls_target :: vec3
  autoRotating :: bool

text \<open>
  After \<^verbatim>\<open>new THREE.PerspectiveCamera(...)\<close>, \<^verbatim>\<open>camera.position.set(0, 1, 3)\<close> and the
  construction of the controls: three.js's default up vector is \<open>(0, 1, 0)\<close> and the
  controls' target starts at the origin; \<^verbatim>\<open>autoRotating\<close> starts as \<^verbatim>\<open>true\<close>.
\<close>

definition initial_viewer :: viewer where
  "initial_viewer =
     \<lparr>cam_position = Vector3 0 1 3, cam_up = Vector3 0 1 0, cam_lookAt = None,
      controls_target = Vector3 0 0 0, autoRotating = True\<rparr>"

definition maxDim_of :: "vec3 \<Rightarrow> real" where
  "maxDim_of sz = max (max (vx sz) (vy sz)) (vz sz)"

text \<open>The framing block of the trackball variant, which also sets \<^verbatim>\<open>camera.up\<close>.\<close>

definition frame_trackball :: "real list \<Rightarrow> viewer \<Rightarrow> viewer" where
  "frame_trackball finalPositions s =
     (let box = computeBoundingBox finalPositions;
          center = getCenter box;
          sz = getSize box;
          maxDim = maxDim_of sz
      in s\<lparr>controls_target := center,
            cam_up := Vector3 0 0 1,
            cam_position := Vector3 (vx center - maxDim * 0.5) (vy center - maxDim * 2.8)
                              (vz center),
            cam_lookAt := Some center\<rparr>)"

subsection \<open>The frame callback of the trackball variant\<close>

text \<open>
  \<^verbatim>\<open>animate\<close>: the manual auto-rotation, then \<^verbatim>\<open>controls.update()\<close>, then the render.
  The update of \<^verbatim>\<open>TrackballControls\<close> is a parameter; rendering does not change the
  state, and the scheduling of the next frame is left out. The guard of the rotation is
  \<^verbatim>\<open>s.autoRotating && s.camera && s.controls\<close>; the camera and the controls are stored in
  \<^verbatim>\<open>s\<close> before the first frame, so the flag alone decides.
\<close>

definition autorotate :: "viewer \<Rightarrow> viewer" where
  "autorotate s =
     (if autoRotating s then
        (let target = controls_target s;
             pos = cam_position s;
             dx = vx pos - vx target;
             dz = vz pos - vz target;
             angle = 0.0005;
             c = cos angle;
             sn = sin angle
         in s\<lparr>cam_position :=
                 Vector3 (vx target + dx * c - dz * sn) (vy pos) (vz target + dx * sn + dz * c)\<rparr>)
      else s)"

definition animate :: "(viewer \<Rightarrow> viewer) \<Rightarrow> viewer \<Rightarrow> viewer" where
  "animate controls_update s = controls_update (autorotate s)"

subsection \<open>The orbit variant: controls, frame callback and framing\<close>

text \<open>
  The state of the orbit variant that the frame callback and the framing block touch: the
  camera's position and up vector, the point that \<^verbatim>\<open>lookAt\<close> was last called with (by the
  component or by the controls), the controls' target and \<^verbatim>\<open>autoRotate\<close> flag, the azimuth
  of the controls' pending rotation (\<^verbatim>\<open>sphericalDelta.theta\<close> in \<^verbatim>\<open>OrbitControls\<close>), and
  the fields \<^verbatim>\<open>initialPos\<close> and \<^verbatim>\<open>initialTarget\<close> of the component's state, which are
  unset until framing.
\<close>

record orbit_viewer =
  camera_position :: vec3
  camera_up :: vec3
  camera_lookAt :: "vec3 option"
  orbit_target :: vec3
  autoRotate :: bool
  sphericalDelta_theta :: real
  initialPos :: "vec3 option"
  initialTarget :: "vec3 option"

text \<open>
  After \<^verbatim>\<open>camera.position.set(0, 1, 3)\<close>, \<^verbatim>\<open>new OrbitControls(camera, ...)\<close> and
  \<^verbatim>\<open>controls.autoRotate = true\<close>: the up vector is three.js's default \<open>(0, 1, 0)\<close>, which
  nothing in this variant assigns to, the target is the origin and no rotation is pending.
  The constructor of the controls ends with one update, which at that point has nothing
  to apply and points the camera at the target.
\<close>

definition initial_orbit_viewer :: orbit_viewer where
  "initial_orbit_viewer =
     \<lparr>camera_position = Vector3 0 1 3, camera_up = Vector3 0 1 0,
      camera_lookAt = Some (Vector3 0 0 0), orbit_target = Vector3 0 0 0, autoRotate = True,
      sphericalDelta_theta = 0, initialPos = None, initialTarget = None\<rparr>"

text \<open>
  The settings of the controls: \<^verbatim>\<open>controls.dampingFactor = 0.08\<close> and
  \<^verbatim>\<open>controls.autoRotateSpeed = 0.25\<close>, with \<^verbatim>\<open>controls.enableDamping = true\<close>.
\<close>

definition dampingFactor :: real where
  "dampingFactor = 0.08"

definition autoRotateSpeed :: real where
  "autoRotateSpeed = 0.25"

text \<open>
  three.js's \<^verbatim>\<open>Spherical\<close>: \<^verbatim>\<open>setFromVector3\<close> gives the radius, the polar angle
  \<open>phi = acos (clamp (y / radius, -1, 1))\<close> and the azimuth \<open>theta = atan2 (x, z)\<close> of a
  vector (both angles \<open>0\<close> when the radius is \<open>0\<close>); \<^verbatim>\<open>makeSafe\<close> keeps \<open>phi\<close> between
  \<open>EPS\<close> and \<open>\<pi> - EPS\<close> with \<open>EPS = 0.000001\<close>; \<^verbatim>\<open>Vector3.setFromSpherical\<close> is the inverse
  of \<^verbatim>\<open>setFromVector3\<close>. \<open>atan2 y x\<close> is \<^verbatim>\<open>Math.atan2(y, x)\<close> on real numbers.
\<close>

record spherical =
  sph_radius :: real
  sph_phi :: real
  sph_theta :: real

definition atan2 :: "real \<Rightarrow> real \<Rightarrow> real" where
  "atan2 y x =
     (if 0 < x then arctan (y / x)
      else if x < 0 then (if 0 \<le> y then arctan (y / x) + pi else arctan (y / x) - pi)
      else if 0 < y then pi / 2
      else if y < 0 then - (pi / 2)
      else 0)"

definition clamp :: "real \<Rightarrow> real \<Rightarrow> real \<Rightarrow> real" where
  "clamp v lo hi = max lo (min hi v)"

definition setFromVector3 :: "vec3 \<Rightarrow> spherical" where
  "setFromVector3 v =
     (let r = sqrt (vx v * vx v + vy v * vy v + vz v * vz v)
      in if r = 0 then \<lparr>sph_radius = r, sph_phi = 0, sph_theta = 0\<rparr>
         else \<lparr>sph_radius = r, sph_phi = arccos (clamp (vy v / r) (- 1) 1),
               sph_theta = atan2 (vx v) (vz v)\<rparr>)"

definition EPS :: real where
  "EPS = 0.000001"

definition makeSafe :: "spherical \<Rightarrow> spherical" where
  "makeSafe sp = sp\<lparr>sph_phi := clamp (sph_phi sp) EPS (pi - EPS)\<rparr>"

definition setFromSpherical :: "spherical \<Rightarrow> vec3" where
  "setFromSpherical sp =
     (let sinPhiRadius = sin (sph_phi sp) * sph_radius sp
      in Vector3 (sinPhiRadius * sin (sph_theta sp)) (cos (sph_phi sp) * sph_radius sp)
           (sinPhiRadius * cos (sph_theta sp)))"

text \<open>
  \<^verbatim>\<open>OrbitControls.update()\<close>, from the library, in a viewer that has received no pointer,
  wheel or key input, so that the pending polar rotation and pan are zero and the zoom
  scale is one; the up vector is \<open>(0, 1, 0)\<close>, for which the controls' change of basis is
  the identity, and the limits of azimuth, polar angle and distance are the defaults (none,
  \<open>[0, \<pi>]\<close>, none). With \<^verbatim>\<open>autoRotate\<close> set, the update first subtracts the auto-rotation
  angle \<open>2\<pi> / 60 / 60 * autoRotateSpeed\<close> from the pending azimuth (\<^verbatim>\<open>rotateLeft\<close>); with
  damping it then applies the fraction \<^verbatim>\<open>dampingFactor\<close> of the pending azimuth to the
  camera's offset from the target, moves the camera, calls \<^verbatim>\<open>lookAt(target)\<close>, and keeps
  the fraction \<open>1 - dampingFactor\<close> of the pending azimuth for the next update.
\<close>

definition getAutoRotationAngle :: real where
  "getAutoRotationAngle = 2 * pi / 60 / 60 * autoRotateSpeed"

definition orbit_update :: "orbit_viewer \<Rightarrow> orbit_viewer" where
  "orbit_update s =
     (let position = camera_position s;
          target = orbit_target s;
          offset = Vector3 (vx position - vx target) (vy position - vy target)
                     (vz position - vz target);
          sp = setFromVector3 offset;
          delta = (if autoRotate s then sphericalDelta_theta s - getAutoRotationAngle
                   else sphericalDelta_theta s);
          sp1 = sp\<lparr>sph_theta := sph_theta sp + delta * dampingFactor\<rparr>;
          sp2 = makeSafe (sp1\<lparr>sph_phi := max 0 (min pi (sph_phi sp1))\<rparr>);
          offset2 = setFromSpherical sp2
      in s\<lparr>camera_position := Vector3 (vx target + vx offset2) (vy target + vy offset2)
                                 (vz target + vz offset2),
            camera_lookAt := Some target,
            sphericalDelta_theta := delta * (1 - dampingFactor)\<rparr>)"

text \<open>
  \<^verbatim>\<open>animate\<close> of the orbit variant: \<^verbatim>\<open>controls.update()\<close>, then the render, which does not
  change the state. It runs once when the component mounts, before the file is fetched,
  and then once per animation frame.
\<close>

definition animate_orbit :: "orbit_viewer \<Rightarrow> orbit_viewer" where
  "animate_orbit s = orbit_update s"

text \<open>
  The framing block of the orbit variant, from \<^verbatim>\<open>geo.computeBoundingBox()\<close> to
  \<^verbatim>\<open>camera.lookAt(center)\<close>: the pose that the component sets.
\<close>

definition frame_orbit_set :: "real list \<Rightarrow> orbit_viewer \<Rightarrow> orbit_viewer" where
  "frame_orbit_set finalPositions s =
     (let box = computeBoundingBox finalPositions;
          center = getCenter box;
          sz = getSize box;
          maxDim = maxDim_of sz
      in s\<lparr>orbit_target := center,
            camera_position := Vector3 (vx center - maxDim * 0.1) (vy center + maxDim * 0.25)
                                 (vz center + maxDim * 1.6),
            camera_lookAt := Some center\<rparr>)"

text \<open>
  The whole block: the pose is set, \<^verbatim>\<open>controls.update()\<close> runs, and the camera's position
  and the controls' target are then stored in \<^verbatim>\<open>s.initialPos\<close> and \<^verbatim>\<open>s.initialTarget\<close>,
  the pose that the Reset button restores.
\<close>

definition frame_orbit :: "real list \<Rightarrow> orbit_viewer \<Rightarrow> orbit_viewer" where
  "frame_orbit finalPositions s =
     (let s2 = orbit_update (frame_orbit_set finalPositions s)
      in s2\<lparr>initialPos := Some (camera_position s2), initialTarget := Some (orbit_target s2)\<rparr>)"

subsection \<open>The annotation overlay\<close>

text \<open>
  The interface \<^verbatim>\<open>Annotation\<close>. The loop compares \<^verbatim>\<open>type\<close> with three literals and
  falls through on anything else, and it tests \<^verbatim>\<open>positions\<close>, \<^verbatim>\<open>radius\<close> and \<^verbatim>\<open>color\<close>
  for absence: \<^verbatim>\<open>type\<close> is a string here and the other three fields are optional.
\<close>

datatype Annotation =
  Annotation (ann_type: string) (ann_positions: "real list option")
    (ann_radius: "real option") (ann_color: "(real \<times> real \<times> real) option")

text \<open>
  What the loop adds to \<^verbatim>\<open>annGroup\<close>: a \<^verbatim>\<open>Mesh\<close> with a \<^verbatim>\<open>SphereGeometry\<close> (its radius,
  its position, the material's colour and opacity), or a \<^verbatim>\<open>Line\<close> through a list of
  \<^verbatim>\<open>Vector3\<close> (with the material's colour and opacity). A component of a line point is
  \<open>None\<close> where the source passes \<^verbatim>\<open>undefined\<close> to \<^verbatim>\<open>new THREE.Vector3\<close>.
\<close>

type_synonym rgb = "real \<times> real \<times> real"

datatype primitive =
    Mesh real vec3 rgb real
  | Line "(real option \<times> real option \<times> real option) list" rgb real

definition annotation_color :: "Annotation \<Rightarrow> rgb" where
  "annotation_color ann =
     (case ann_color ann of
        Some (c0, c1, c2) \<Rightarrow> (c0 / 255, c1 / 255, c2 / 255)
      | None \<Rightarrow> (1, 0.4, 0.4))"

text \<open>
  \<^verbatim>\<open>for (let i = 0; i < ann.positions.length; i += 3)\<close>: one \<^verbatim>\<open>Vector3\<close> per started group
  of three; reads past the end of the array are \<^verbatim>\<open>undefined\<close>.
\<close>

fun freehand_points :: "real list \<Rightarrow> (real option \<times> real option \<times> real option) list" where
  "freehand_points [] = []"
| "freehand_points [a] = [(Some a, None, None)]"
| "freehand_points [a, b] = [(Some a, Some b, None)]"
| "freehand_points (a # b # c # rest) = (Some a, Some b, Some c) # freehand_points rest"

definition circle_points ::
  "real list \<Rightarrow> real \<Rightarrow> (real option \<times> real option \<times> real option) list" where
  "circle_points ps radius =
     map (\<lambda>i. let theta = (real i / 64) * pi * 2
              in (Some (ps ! 0 + cos theta * radius), Some (ps ! 1 + sin theta * radius),
                  Some (ps ! 2)))
       [0..<65]"

text \<open>One iteration of the loop: the primitives it adds, none when it skips.\<close>

definition build_annotation :: "Annotation \<Rightarrow> primitive list" where
  "build_annotation ann =
     (case ann_positions ann of
        None \<Rightarrow> []
      | Some ps \<Rightarrow>
          if length ps < 3 then []
          else
            (let color = annotation_color ann in
             if ann_type ann = ''point'' then
               (let radius = (case ann_radius ann of
                                Some r \<Rightarrow> if r \<noteq> 0 \<and> r > 0.01 then r else 0.12
                              | None \<Rightarrow> 0.12)
                in [Mesh (radius * 0.3) (Vector3 (ps ! 0) (ps ! 1) (ps ! 2)) color 0.7])
             else if ann_type ann = ''circle'' then
               (let radius = (case ann_radius ann of
                                Some r \<Rightarrow> if r \<noteq> 0 \<and> r > 0 then r else 0.05
                              | None \<Rightarrow> 0.05)
                in [Line (circle_points ps radius) color 0.8])
             else if ann_type ann = ''freehand'' \<and> length ps \<ge> 6 then
               [Line (freehand_points ps) color 0.8]
             else []))"

text \<open>\<^verbatim>\<open>for (const ann of data.annotations)\<close>, with \<^verbatim>\<open>annGroup\<close> as the accumulator.\<close>

fun build_loop :: "Annotation list \<Rightarrow> primitive list \<Rightarrow> primitive list" where
  "build_loop [] annGroup = annGroup"
| "build_loop (ann # rest) annGroup = build_loop rest (annGroup @ build_annotation ann)"

definition build_annotations :: "Annotation list \<Rightarrow> primitive list" where
  "build_annotations anns = build_loop anns []"

section \<open>The specification's side\<close>

subsection \<open>The wire layout as an encoder\<close>

text \<open>
  Modelled from the spec: the repository has no encoder. The wire layout of the
  specification, written as a function: \<^verbatim>\<open>"LSS"\<close>, version 1, the vertex count and the
  annotation block length (0) as little-endian int32, four reserved bytes, then one
  9-byte record per vertex in order: x, y, z scaled by 1000 as little-endian int16, then
  r, g, b as bytes.
\<close>

datatype vertex = Vertex (v_point: vec3) (v_red: byte) (v_green: byte) (v_blue: byte)

definition int16_bytes :: "int \<Rightarrow> byte list" where
  "int16_bytes k = (let w = (word_of_int k :: 16 word) in [ucast w, ucast (drop_bit 8 w)])"

definition int32_bytes :: "int \<Rightarrow> byte list" where
  "int32_bytes k =
     (let w = (word_of_int k :: 32 word)
      in [ucast w, ucast (drop_bit 8 w), ucast (drop_bit 16 w), ucast (drop_bit 24 w)])"

definition encode_vertex :: "vertex \<Rightarrow> byte list" where
  "encode_vertex v =
     int16_bytes (round (vx (v_point v) * 1000)) @
     int16_bytes (round (vy (v_point v) * 1000)) @
     int16_bytes (round (vz (v_point v) * 1000)) @
     [v_red v, v_green v, v_blue v]"

definition encode :: "vertex list \<Rightarrow> byte list" where
  "encode vs =
     [0x4C, 0x53, 0x53, 1] @ int32_bytes (int (length vs)) @ int32_bytes 0 @ [0, 0, 0, 0] @
     concat (map encode_vertex vs)"

text \<open>A coordinate that is an exact multiple of 0.001 within \<open>\<plusminus>32.767\<close>.\<close>

definition on_grid :: "real \<Rightarrow> bool" where
  "on_grid c = (real_of_int (round (c * 1000)) = c * 1000 \<and> \<bar>c\<bar> \<le> 32767 / 1000)"

definition vertex_on_grid :: "vertex \<Rightarrow> bool" where
  "vertex_on_grid v =
     (on_grid (vx (v_point v)) \<and> on_grid (vy (v_point v)) \<and> on_grid (vz (v_point v)))"

definition flat :: "vec3 \<Rightarrow> real list" where
  "flat p = [vx p, vy p, vz p]"

definition color_ratios :: "vertex \<Rightarrow> real list" where
  "color_ratios v =
     [real (unat (v_red v)) / 255, real (unat (v_green v)) / 255, real (unat (v_blue v)) / 255]"

text \<open>
  What the decoder keeps of a quotient \<open>q\<close>, which is \<open>k / 1000\<close> or \<open>byte / 255\<close>: the
  binary64 value nearest to \<open>q\<close> (the division), rounded to the nearest binary32 value
  (the store into the \<^verbatim>\<open>Float32Array\<close>).
\<close>

definition binary32_of :: "real \<Rightarrow> real" where
  "binary32_of q = fround (round_binary 53 (- 1022) q)"

subsection \<open>The header and the records of a buffer\<close>

definition valid_header :: "byte list \<Rightarrow> bool" where
  "valid_header buf = (take 4 buf = [0x4C, 0x53, 0x53, 1])"

definition header_vertexCount :: "byte list \<Rightarrow> int" where
  "header_vertexCount buf = sint (le32 (buf ! 4) (buf ! 5) (buf ! 6) (buf ! 7))"

definition header_annotLen :: "byte list \<Rightarrow> int" where
  "header_annotLen buf = sint (le32 (buf ! 8) (buf ! 9) (buf ! 10) (buf ! 11))"

text \<open>The values decoded from the record at an offset, when the record is inside the buffer.\<close>

definition vertex_pos :: "byte list \<Rightarrow> nat \<Rightarrow> real list" where
  "vertex_pos buf off =
     [fround (js_div (real_of_int (sint (le16 (buf ! off) (buf ! (off + 1))))) 1000),
      fround (js_div (real_of_int (sint (le16 (buf ! (off + 2)) (buf ! (off + 3))))) 1000),
      fround (js_div (real_of_int (sint (le16 (buf ! (off + 4)) (buf ! (off + 5))))) 1000)]"

definition vertex_col :: "byte list \<Rightarrow> nat \<Rightarrow> real list" where
  "vertex_col buf off =
     [fround (js_div (real (unat (buf ! (off + 6)))) 255),
      fround (js_div (real (unat (buf ! (off + 7)))) 255),
      fround (js_div (real (unat (buf ! (off + 8)))) 255)]"

text \<open>The annotation byte range of a buffer: after the last vertex record.\<close>

definition annot_offset :: "byte list \<Rightarrow> nat" where
  "annot_offset buf = 16 + 9 * nat (header_vertexCount buf)"

definition annot_block :: "byte list \<Rightarrow> byte list" where
  "annot_block buf = take (nat (header_annotLen buf)) (drop (annot_offset buf) buf)"

text \<open>
  The condition under which the header and every vertex record of a buffer can be read:
  twelve header bytes, a count that is not negative, and, when the count is positive, the
  bytes of all records.
\<close>

definition vertices_readable :: "byte list \<Rightarrow> bool" where
  "vertices_readable buf =
     (valid_header buf \<and> 12 \<le> length buf \<and> 0 \<le> header_vertexCount buf \<and>
      (header_vertexCount buf = 0 \<or> 16 + 9 * header_vertexCount buf \<le> int (length buf)))"

subsection \<open>Snapshots, bounding boxes and the filter's predicate\<close>

text \<open>The invariant of the data model: both arrays hold three numbers per vertex.\<close>

definition wf_snapshot :: "LssnapData \<Rightarrow> bool" where
  "wf_snapshot data =
     (int (length (positions data)) = 3 * vertexCount data \<and>
      int (length (colors data)) = 3 * vertexCount data)"

text \<open>The vertices of a snapshot in order, each a point with its colour.\<close>

definition vertices_of :: "LssnapData \<Rightarrow> (vec3 \<times> vec3) list" where
  "vertices_of data = zip (points_of (positions data)) (points_of (colors data))"

text \<open>
  The three predicates of the specification, over the bounding box of all points:
  \<open>x \<ge> centerX\<close>, \<open>z \<le> minZ + zRange * depthFraction\<close> and
  \<open>y \<ge> minY + yRange * heightFraction\<close>.
\<close>

definition keeps :: "real \<Rightarrow> real \<Rightarrow> vec3 list \<Rightarrow> vec3 \<Rightarrow> bool" where
  "keeps depthFraction heightFraction pts p =
     (let minX = Min (vx ` set pts); maxX = Max (vx ` set pts);
          minY = Min (vy ` set pts); maxY = Max (vy ` set pts);
          minZ = Min (vz ` set pts); maxZ = Max (vz ` set pts)
      in vx p \<ge> (minX + maxX) / 2 \<and>
         vz p \<le> minZ + (maxZ - minZ) * depthFraction \<and>
         vy p \<ge> minY + (maxY - minY) * heightFraction)"

definition kept :: "real \<Rightarrow> real \<Rightarrow> LssnapData \<Rightarrow> (vec3 \<times> vec3) list" where
  "kept depthFraction heightFraction data =
     filter (\<lambda>pc. keeps depthFraction heightFraction (points_of (positions data)) (fst pc))
       (vertices_of data)"

text \<open>The test of the loop, on a vertex, for given cuts.\<close>

definition cut_test :: "real \<Rightarrow> real \<Rightarrow> real \<Rightarrow> vec3 \<times> vec3 \<Rightarrow> bool" where
  "cut_test xCut zCut yCutMax pc =
     (vx (fst pc) \<ge> xCut \<and> vz (fst pc) \<le> zCut \<and> vy (fst pc) \<ge> yCutMax)"

text \<open>A point set that spans \<open>[0, 10]\<close> on each axis, and the region \<open>x \<ge> 5, z \<le> 7.5, y \<ge> 5\<close>.\<close>

definition spans_cube :: "vec3 list \<Rightarrow> bool" where
  "spans_cube pts =
     (Min (vx ` set pts) = 0 \<and> Max (vx ` set pts) = 10 \<and>
      Min (vy ` set pts) = 0 \<and> Max (vy ` set pts) = 10 \<and>
      Min (vz ` set pts) = 0 \<and> Max (vz ` set pts) = 10)"

definition in_subject_region :: "vec3 \<times> vec3 \<Rightarrow> bool" where
  "in_subject_region pc = (vx (fst pc) \<ge> 5 \<and> vz (fst pc) \<le> 7.5 \<and> vy (fst pc) \<ge> 5)"

text \<open>The centre of the bounding box of a point set and the largest of its three extents.\<close>

definition box_center :: "vec3 list \<Rightarrow> vec3" where
  "box_center pts =
     Vector3 ((Min (vx ` set pts) + Max (vx ` set pts)) / 2)
             ((Min (vy ` set pts) + Max (vy ` set pts)) / 2)
             ((Min (vz ` set pts) + Max (vz ` set pts)) / 2)"

definition box_maxDim :: "vec3 list \<Rightarrow> real" where
  "box_maxDim pts =
     Max {Max (vx ` set pts) - Min (vx ` set pts), Max (vy ` set pts) - Min (vy ` set pts),
          Max (vz ` set pts) - Min (vz ` set pts)}"

subsection \<open>Rotations\<close>

definition vadd :: "vec3 \<Rightarrow> vec3 \<Rightarrow> vec3" where
  "vadd a b = Vector3 (vx a + vx b) (vy a + vy b) (vz a + vz b)"

definition vsub :: "vec3 \<Rightarrow> vec3 \<Rightarrow> vec3" where
  "vsub a b = Vector3 (vx a - vx b) (vy a - vy b) (vz a - vz b)"

definition scale :: "real \<Rightarrow> vec3 \<Rightarrow> vec3" where
  "scale k a = Vector3 (k * vx a) (k * vy a) (k * vz a)"

definition dot :: "vec3 \<Rightarrow> vec3 \<Rightarrow> real" where
  "dot a b = vx a * vx b + vy a * vy b + vz a * vz b"

definition cross :: "vec3 \<Rightarrow> vec3 \<Rightarrow> vec3" where
  "cross a b =
     Vector3 (vy a * vz b - vz a * vy b) (vz a * vx b - vx a * vz b) (vx a * vy b - vy a * vx b)"

text \<open>
  The rotation of a vector \<open>v\<close> by the angle \<open>a\<close> about a unit axis \<open>u\<close> (right-handed,
  Rodrigues' formula), and the same rotation of a position around a target point.
\<close>

definition rotate_about :: "vec3 \<Rightarrow> real \<Rightarrow> vec3 \<Rightarrow> vec3" where
  "rotate_about u a v =
     vadd (vadd (scale (cos a) v) (scale (sin a) (cross u v))) (scale (dot u v * (1 - cos a)) u)"

definition orbit_about :: "vec3 \<Rightarrow> real \<Rightarrow> vec3 \<Rightarrow> vec3 \<Rightarrow> vec3" where
  "orbit_about axis a target pos = vadd target (rotate_about axis a (vsub pos target))"

text \<open>
  The azimuth by which one update of the orbit controls turns the camera's offset from the
  target: the fraction \<^verbatim>\<open>dampingFactor\<close> of the pending azimuth, after the auto-rotation
  angle has been subtracted from it when \<^verbatim>\<open>autoRotate\<close> is set.
\<close>

definition pending_turn :: "orbit_viewer \<Rightarrow> real" where
  "pending_turn s =
     (if autoRotate s then sphericalDelta_theta s - getAutoRotationAngle
      else sphericalDelta_theta s) * dampingFactor"

subsection \<open>Shape constraints of annotations\<close>

text \<open>
  The annotations on which an iteration of the overlay loop adds nothing: no positions,
  fewer than three values, a freehand with fewer than six values, or a type that is
  none of the three literals.
\<close>

definition skipped :: "Annotation \<Rightarrow> bool" where
  "skipped ann =
     (case ann_positions ann of
        None \<Rightarrow> True
      | Some ps \<Rightarrow>
          length ps < 3 \<or>
          (ann_type ann = ''freehand'' \<and> length ps < 6) \<or>
          (ann_type ann \<noteq> ''point'' \<and> ann_type ann \<noteq> ''circle'' \<and>
           ann_type ann \<noteq> ''freehand''))"

text \<open>
  The specification's shape constraint of a freehand annotation, negated: the number of
  values is not a multiple of 3 or is below 6.
\<close>

definition freehand_invalid :: "Annotation \<Rightarrow> bool" where
  "freehand_invalid ann =
     (ann_type ann = ''freehand'' \<and>
      (case ann_positions ann of
         None \<Rightarrow> True
       | Some ps \<Rightarrow> length ps mod 3 \<noteq> 0 \<or> length ps < 6))"

subsection \<open>Sample buffers\<close>

text \<open>
  One vertex with the int16 values 500, -500 and 32767 and the colour \<open>(51, 102, 255)\<close>,
  no annotation block.
\<close>

definition one_vertex_buffer :: "byte list" where
  "one_vertex_buffer =
     [0x4C, 0x53, 0x53, 1,  1, 0, 0, 0,  0, 0, 0, 0,  0, 0, 0, 0,
      0xF4, 0x01, 0x0C, 0xFE, 0xFF, 0x7F, 51, 102, 255]"

text \<open>The first twelve bytes of a header, with vertex count 0 and block length 0.\<close>

definition header_only_12 :: "byte list" where
  "header_only_12 = [0x4C, 0x53, 0x53, 1,  0, 0, 0, 0,  0, 0, 0, 0]"

text \<open>A header that announces one vertex, followed by four bytes only.\<close>

definition truncated_buffer :: "byte list" where
  "truncated_buffer =
     [0x4C, 0x53, 0x53, 1,  1, 0, 0, 0,  0, 0, 0, 0,  0, 0, 0, 0,  0xF4, 0x01, 0x0C, 0xFE]"

text \<open>A header whose vertex count field is \<open>-1\<close>.\<close>

definition negative_count_buffer :: "byte list" where
  "negative_count_buffer =
     [0x4C, 0x53, 0x53, 1,  0xFF, 0xFF, 0xFF, 0xFF,  0, 0, 0, 0,  0, 0, 0, 0]"

text \<open>No vertex; an annotation block of one byte, the malformed text \<^verbatim>\<open>{\<close>.\<close>

definition malformed_block_buffer :: "byte list" where
  "malformed_block_buffer =
     [0x4C, 0x53, 0x53, 1,  0, 0, 0, 0,  1, 0, 0, 0,  0, 0, 0, 0,  0x7B]"

text \<open>No vertex; an annotation block of two bytes, the JSON text \<^verbatim>\<open>{}\<close>.\<close>

definition object_block_buffer :: "byte list" where
  "object_block_buffer =
     [0x4C, 0x53, 0x53, 1,  0, 0, 0, 0,  2, 0, 0, 0,  0, 0, 0, 0,  0x7B, 0x7D]"

subsection \<open>Sample point sets, snapshots, viewers and annotations\<close>

text \<open>
  The two points of the specification's round-trip example: \<open>(1, 2, -3)\<close> in red and the
  origin in green.
\<close>

definition example_points :: "vertex list" where
  "example_points =
     [Vertex (Vector3 1 2 (- 3)) 255 0 0, Vertex (Vector3 0 0 0) 0 255 0]"

text \<open>
  The eight corners of the cube \<open>[0, 10]\<^sup>3\<close>, the boundary point \<open>(5, 5, 7.5)\<close>, three
  points just outside one of the three cuts each, and an inner point.
\<close>

definition cube_snapshot :: LssnapData where
  "cube_snapshot =
     \<lparr>vertexCount = 13,
      positions =
        [0, 0, 0,   10, 0, 0,   0, 10, 0,   10, 10, 0,
         0, 0, 10,  10, 0, 10,  0, 10, 10,  10, 10, 10,
         5, 5, 7.5,   4.999, 5, 7.5,   5, 4.999, 7.5,   5, 5, 7.501,   7, 8, 2],
      colors =
        [0, 0, 0,   0.1, 0, 0,   0.2, 0, 0,   0.3, 0, 0,
         0.4, 0, 0,  0.5, 0, 0,  0.6, 0, 0,  0.7, 0, 0,
         0, 1, 0,   0, 0.9, 0,   0, 0.8, 0,   0, 0.7, 0,   0, 0, 1],
      annotations = JArr []\<rparr>"

text \<open>The eight corners of the unit box centred at the origin, as a position array.\<close>

definition unit_box :: "real list" where
  "unit_box =
     [-0.5, -0.5, -0.5,   0.5, -0.5, -0.5,   -0.5, 0.5, -0.5,   0.5, 0.5, -0.5,
      -0.5, -0.5, 0.5,    0.5, -0.5, 0.5,    -0.5, 0.5, 0.5,    0.5, 0.5, 0.5]"

text \<open>The trackball viewer right after its framing block has run on the unit box.\<close>

definition framed_trackball_viewer :: viewer where
  "framed_trackball_viewer = frame_trackball unit_box initial_viewer"

text \<open>
  A vertex at the origin with the colour bytes \<open>(51, 102, 255)\<close>, and the orbit variant's
  viewer after the one frame that runs when the component mounts.
\<close>

definition rounded_colour_point :: "vertex list" where
  "rounded_colour_point = [Vertex (Vector3 0 0 0) 51 102 255]"

definition first_frame_viewer :: orbit_viewer where
  "first_frame_viewer = animate_orbit initial_orbit_viewer"

text \<open>
  \<^verbatim>\<open>{type:"freehand", positions:[1,2]}\<close>; a freehand with seven values; a point with a
  radius and a colour; a freehand through two points.
\<close>

definition too_short_freehand :: Annotation where
  "too_short_freehand = Annotation ''freehand'' (Some [1, 2]) None None"

definition ragged_freehand :: Annotation where
  "ragged_freehand = Annotation ''freehand'' (Some [0, 0, 0, 1, 1, 1, 2]) None None"

definition sample_point :: Annotation where
  "sample_point = Annotation ''point'' (Some [1, 2, 3]) (Some 0.5) (Some (255, 0, 51))"

definition sample_freehand :: Annotation where
  "sample_freehand = Annotation ''freehand'' (Some [0, 0, 0, 1, 1, 1]) None None"

section \<open>Proofs: the decoder\<close>

lemma getUint8_ok: "i < length buf \<Longrightarrow> getUint8 buf i = Inr (buf ! i)"
  by (simp add: getUint8_def)

lemma read_vertex_ok:
  "off + 9 \<le> length buf \<Longrightarrow> read_vertex buf off = Inr (vertex_pos buf off, vertex_col buf off)"
  by (simp add: read_vertex_def getInt16_def getUint8_def vertex_pos_def vertex_col_def
      numeral_eq_Suc add.commute)

lemma read_vertex_err: "\<not> off + 9 \<le> length buf \<Longrightarrow> read_vertex buf off = Inl RangeError"
  by (auto simp add: read_vertex_def getInt16_def getUint8_def)

lemma vertex_loop_done: "vertex_loop buf n n off pos col = Inr (pos, col, off)"
  by (simp add: vertex_loop.simps[of buf n n])

lemma vertex_loop_length:
  "vertex_loop buf n i off pos col = Inr (pos', col', off') \<Longrightarrow>
   length pos' = length pos \<and> length col' = length col"
proof (induction buf n i off pos col rule: vertex_loop.induct)
  case (1 buf n i offset pos col)
  show ?case
  proof (cases "i < n")
    case False
    with "1.prems" show ?thesis by (simp add: vertex_loop.simps)
  next
    case True
    show ?thesis
    proof (cases "read_vertex buf offset")
      case (Inl e)
      with True "1.prems" show ?thesis by (simp add: vertex_loop.simps)
    next
      case (Inr pc)
      obtain p c where pc: "pc = (p, c)" by (cases pc)
      from "1.IH"[OF True Inr[unfolded pc] refl] "1.prems" True Inr pc
      show ?thesis by (simp add: vertex_loop.simps[of buf n i])
    qed
  qed
qed

lemma vertex_loop_err:
  "i < n \<Longrightarrow> length buf < off + 9 * (n - i) \<Longrightarrow>
   vertex_loop buf n i off pos col = Inl RangeError"
proof (induction buf n i off pos col rule: vertex_loop.induct)
  case (1 buf n i offset pos col)
  show ?case
  proof (cases "offset + 9 \<le> length buf")
    case False
    with "1.prems" show ?thesis
      by (simp add: vertex_loop.simps[of buf n i] read_vertex_err)
  next
    case True
    have rv: "read_vertex buf offset = Inr (vertex_pos buf offset, vertex_col buf offset)"
      using True by (rule read_vertex_ok)
    from True "1.prems" have lt: "Suc i < n" by (cases "Suc i = n") auto
    have "length buf < offset + 9 + 9 * (n - Suc i)" using "1.prems" lt by simp
    from "1.IH"[OF "1.prems"(1) rv refl lt this] "1.prems"(1) rv
    show ?thesis by (simp add: vertex_loop.simps[of buf n i])
  qed
qed

lemma take_update3:
  "3 * i + 3 \<le> length xs \<Longrightarrow>
   take (3 * Suc i) (xs[i * 3 := a, i * 3 + 1 := b, i * 3 + 2 := c]) = take (3 * i) xs @ [a, b, c]"
  apply (rule nth_equalityI)
   apply simp
  apply (auto simp: nth_append nth_list_update less_Suc_eq numeral_3_eq_3 mult.commute)
  done

lemma map_upt_Suc_shift:
  "map f [0..<Suc m] = f 0 # map (\<lambda>j. f (Suc j)) [0..<m]"
  by (simp only: upt_conv_Cons[OF zero_less_Suc] list.map map_Suc_upt[symmetric] map_map comp_def)

lemma vertex_loop_ok:
  "off + 9 * (n - i) \<le> length buf \<Longrightarrow> i \<le> n \<Longrightarrow> length pos = 3 * n \<Longrightarrow>
   length col = 3 * n \<Longrightarrow>
   vertex_loop buf n i off pos col =
     Inr (take (3 * i) pos @ concat (map (\<lambda>j. vertex_pos buf (off + 9 * j)) [0..<n - i]),
          take (3 * i) col @ concat (map (\<lambda>j. vertex_col buf (off + 9 * j)) [0..<n - i]),
          off + 9 * (n - i))"
proof (induction buf n i off pos col rule: vertex_loop.induct)
  case (1 buf n i offset pos col)
  show ?case
  proof (cases "i < n")
    case False
    with "1.prems" have "i = n" by simp
    with "1.prems" show ?thesis by (simp add: vertex_loop_done)
  next
    case True
    then have ni: "n - i = Suc (n - Suc i)" by simp
    have rv: "read_vertex buf offset = Inr (vertex_pos buf offset, vertex_col buf offset)"
      using True "1.prems" by (intro read_vertex_ok) simp
    let ?p = "vertex_pos buf offset" and ?c = "vertex_col buf offset"
    let ?pos' = "pos[i * 3 := ?p ! 0, i * 3 + 1 := ?p ! 1, i * 3 + 2 := ?p ! 2]"
    let ?col' = "col[i * 3 := ?c ! 0, i * 3 + 1 := ?c ! 1, i * 3 + 2 := ?c ! 2]"
    have p3: "[?p ! 0, ?p ! 1, ?p ! 2] = ?p" by (simp add: vertex_pos_def)
    have c3: "[?c ! 0, ?c ! 1, ?c ! 2] = ?c" by (simp add: vertex_col_def)
    have tp: "take (3 * Suc i) ?pos' = take (3 * i) pos @ ?p"
      using take_update3[of i pos "?p ! 0" "?p ! 1" "?p ! 2"] True "1.prems" p3 by simp
    have tc: "take (3 * Suc i) ?col' = take (3 * i) col @ ?c"
      using take_update3[of i col "?c ! 0" "?c ! 1" "?c ! 2"] True "1.prems" c3 by simp
    have ih: "vertex_loop buf n (Suc i) (offset + 9) ?pos' ?col' =
      Inr (take (3 * Suc i) ?pos' @
             concat (map (\<lambda>j. vertex_pos buf (offset + 9 + 9 * j)) [0..<n - Suc i]),
           take (3 * Suc i) ?col' @
             concat (map (\<lambda>j. vertex_col buf (offset + 9 + 9 * j)) [0..<n - Suc i]),
           offset + 9 + 9 * (n - Suc i))"
      using "1.prems" True by (intro "1.IH"[OF True rv refl]) (simp_all add: ni)
    show ?thesis
      unfolding vertex_loop.simps[of buf n i offset pos col] ni map_upt_Suc_shift
      using True rv ih[unfolded tp tc] by (simp add: ni add.assoc)
  qed
qed

lemma take4: "4 \<le> length buf \<Longrightarrow> take 4 buf = [buf ! 0, buf ! 1, buf ! 2, buf ! 3]"
  by (rule nth_equalityI) (auto simp: less_Suc_eq numeral_eq_Suc)

lemma valid_header_length: "valid_header buf \<Longrightarrow> 4 \<le> length buf"
  by (cases "4 \<le> length buf") (auto simp: valid_header_def)

lemma parse_short: "length buf < 4 \<Longrightarrow> parseLssnap jp buf = Inl RangeError"
  by (auto simp: parseLssnap_def getUint8_def)

lemma parse_bad_header:
  "4 \<le> length buf \<Longrightarrow> \<not> valid_header buf \<Longrightarrow> parseLssnap jp buf = Inl FormatError"
  by (auto simp: parseLssnap_def getUint8_def valid_header_def take4)

lemma parse_valid:
  assumes "valid_header buf"
  shows "parseLssnap jp buf =
    (if length buf < 12 \<or> header_vertexCount buf < 0
        \<or> (0 < header_vertexCount buf \<and> int (length buf) < 16 + 9 * header_vertexCount buf)
     then Inl RangeError
     else Inr \<lparr>vertexCount = header_vertexCount buf,
       positions = concat (map (\<lambda>j. vertex_pos buf (16 + 9 * j)) [0..<nat (header_vertexCount buf)]),
       colors = concat (map (\<lambda>j. vertex_col buf (16 + 9 * j)) [0..<nat (header_vertexCount buf)]),
       annotations = parse_annotations jp buf (annot_offset buf) (header_annotLen buf)\<rparr>)"
proof -
  from assms have len4: "4 \<le> length buf" by (rule valid_header_length)
  from assms len4 have hdr: "buf ! 0 = 0x4C" "buf ! 1 = 0x53" "buf ! 2 = 0x53" "buf ! 3 = 1"
    by (simp_all add: valid_header_def take4)
  let ?vc = "header_vertexCount buf"
  have head: "parseLssnap jp buf =
     (case getInt32 buf 4 of Inl e \<Rightarrow> Inl e | Inr vc \<Rightarrow>
     (case getInt32 buf 8 of Inl e \<Rightarrow> Inl e | Inr annotJsonLen \<Rightarrow>
        if vc < 0 then Inl RangeError
        else
     (case vertex_loop buf (nat vc) 0 16
             (replicate (nat (vc * 3)) 0) (replicate (nat (vc * 3)) 0) of
        Inl e \<Rightarrow> Inl e
      | Inr (pos, col, offset) \<Rightarrow>
          Inr \<lparr>vertexCount = vc, positions = pos, colors = col,
               annotations = parse_annotations jp buf offset annotJsonLen\<rparr>)))"
  proof -
    have "getUint8 buf 0 = Inr 0x4C" "getUint8 buf 1 = Inr 0x53" "getUint8 buf 2 = Inr 0x53"
      "getUint8 buf 3 = Inr 1"
      using len4 hdr getUint8_ok[of 0 buf] getUint8_ok[of 1 buf] getUint8_ok[of 2 buf]
        getUint8_ok[of 3 buf] by fastforce+
    then show ?thesis by (simp add: parseLssnap_def)
  qed
  show ?thesis
  proof (cases "length buf < 12")
    case True
    then show ?thesis unfolding head by (auto simp: getInt32_def)
  next
    case False
    then have g: "getInt32 buf 4 = Inr ?vc" "getInt32 buf 8 = Inr (header_annotLen buf)"
      by (simp_all add: getInt32_def header_vertexCount_def header_annotLen_def numeral_eq_Suc
          add.commute)
    show ?thesis
    proof (cases "?vc < 0")
      case True
      then show ?thesis unfolding head g by simp
    next
      case nn: False
      show ?thesis
      proof (cases "0 < ?vc \<and> int (length buf) < 16 + 9 * ?vc")
        case True
        then have "0 < nat ?vc" "length buf < 16 + 9 * (nat ?vc - 0)" by auto
        then have "vertex_loop buf (nat ?vc) 0 16 (replicate (nat (?vc * 3)) 0)
            (replicate (nat (?vc * 3)) 0) = Inl RangeError"
          by (rule vertex_loop_err)
        with True nn show ?thesis unfolding head g by simp
      next
        case ok: False
        have l: "length (replicate (nat (?vc * 3)) (0::real)) = 3 * nat ?vc"
          using nn by (simp add: nat_mult_distrib)
        have "vertex_loop buf (nat ?vc) 0 16 (replicate (nat (?vc * 3)) 0)
            (replicate (nat (?vc * 3)) 0) =
          Inr (concat (map (\<lambda>j. vertex_pos buf (16 + 9 * j)) [0..<nat ?vc]),
               concat (map (\<lambda>j. vertex_col buf (16 + 9 * j)) [0..<nat ?vc]),
               16 + 9 * nat ?vc)"
        proof (cases "?vc = 0")
          case True
          then show ?thesis by (simp add: vertex_loop_done)
        next
          case False
          with ok nn have "16 + 9 * (nat ?vc - 0) \<le> length buf" by auto
          from vertex_loop_ok[OF this _ l l] show ?thesis by simp
        qed
        with ok nn False show ?thesis unfolding head g by (simp add: annot_offset_def)
      qed
    qed
  qed
qed

subsection \<open>C1: the format error\<close>

text \<open>
  C1, as amended. On a buffer of at least four bytes, \<^verbatim>\<open>parseLssnap\<close> throws its format
  error if and only if the first four bytes are not \<^verbatim>\<open>"LSS"\<close> followed by \<open>0x01\<close>, whatever
  the rest of the buffer holds: a wrong magic or version always yields the format error,
  and a valid header never does.
\<close>

theorem format_error_iff:
  assumes "4 \<le> length buf"
  shows "parseLssnap jp buf = Inl FormatError \<longleftrightarrow> \<not> valid_header buf"
proof (cases "valid_header buf")
  case False
  with assms show ?thesis by (simp add: parse_bad_header)
next
  case True
  then show ?thesis by (simp add: parse_valid)
qed

text \<open>
  At a wrong magic byte, at a wrong version, and at a valid header (which then fails with
  a range error, the buffer being six bytes long).
\<close>

theorem format_error_iff_witness:
  "4 \<le> length [0x58, 0x53, 0x53, 1, 7, 7 :: byte] \<and>
   \<not> valid_header [0x58, 0x53, 0x53, 1, 7, 7] \<and>
   parseLssnap json_parse_sample [0x58, 0x53, 0x53, 1, 7, 7] = Inl FormatError \<and>
   \<not> valid_header [0x4C, 0x53, 0x53, 2, 7, 7] \<and>
   parseLssnap json_parse_sample [0x4C, 0x53, 0x53, 2, 7, 7] = Inl FormatError \<and>
   valid_header [0x4C, 0x53, 0x53, 1, 7, 7] \<and>
   parseLssnap json_parse_sample [0x4C, 0x53, 0x53, 1, 7, 7] \<noteq> Inl FormatError"
  using format_error_iff[of "[0x58, 0x53, 0x53, 1, 7, 7]" json_parse_sample]
    format_error_iff[of "[0x4C, 0x53, 0x53, 2, 7, 7]" json_parse_sample]
    format_error_iff[of "[0x4C, 0x53, 0x53, 1, 7, 7]" json_parse_sample]
  by (simp add: valid_header_def)

text \<open>
  C1 as stated fails on short buffers: the empty buffer and the three bytes \<^verbatim>\<open>"LSS"\<close> do
  not start with \<^verbatim>\<open>"LSS"\<close>, \<open>0x01\<close>, and \<^verbatim>\<open>view.getUint8\<close> throws a \<^verbatim>\<open>RangeError\<close> on them
  before the header is compared.
\<close>

theorem short_buffer_counterexample:
  "\<not> valid_header [] \<and>
   parseLssnap json_parse_sample [] = Inl RangeError \<and>
   parseLssnap json_parse_sample [] \<noteq> Inl FormatError \<and>
   \<not> valid_header [0x4C, 0x53, 0x53] \<and>
   parseLssnap json_parse_sample [0x4C, 0x53, 0x53] = Inl RangeError \<and>
   parseLssnap json_parse_sample [0x4C, 0x53, 0x53] \<noteq> Inl FormatError"
  by (simp add: valid_header_def parse_short)

subsection \<open>C2: the lengths of the two arrays\<close>

lemma one_vertex_parse:
  "parseLssnap json_parse_sample one_vertex_buffer =
     Inr \<lparr>vertexCount = 1, positions = [1/2, -1/2, 1073709/32768],
          colors = [13421773/67108864, 13421773/33554432, 1], annotations = JArr []\<rparr>"
  by code_simp

text \<open>
  C2. Every snapshot that \<^verbatim>\<open>parseLssnap\<close> returns has
  \<open>positions.length = colors.length = 3 * vertexCount\<close>, where \<open>vertexCount\<close> is the int32
  that \<^verbatim>\<open>getInt32(4, true)\<close> reads from the header, and is not negative.
\<close>

theorem parse_lengths:
  assumes "parseLssnap jp buf = Inr d"
  shows "int (length (positions d)) = 3 * vertexCount d \<and>
         int (length (colors d)) = 3 * vertexCount d \<and>
         getInt32 buf 4 = Inr (vertexCount d) \<and> 0 \<le> vertexCount d"
proof -
  from assms obtain vc len pos col off where
    vc: "getInt32 buf 4 = Inr vc" and nn: "\<not> vc < 0" and
    loop: "vertex_loop buf (nat vc) 0 16 (replicate (nat (vc * 3)) 0)
             (replicate (nat (vc * 3)) 0) = Inr (pos, col, off)" and
    d: "d = \<lparr>vertexCount = vc, positions = pos, colors = col,
             annotations = parse_annotations jp buf off len\<rparr>"
    by (auto simp: parseLssnap_def split: sum.splits if_splits prod.splits)
  from vertex_loop_length[OF loop] nn
  have "int (length pos) = 3 * vc" "int (length col) = 3 * vc" by simp_all
  with vc nn d show ?thesis by simp
qed

theorem parse_lengths_witness:
  "parseLssnap json_parse_sample one_vertex_buffer =
     Inr \<lparr>vertexCount = 1, positions = [1/2, -1/2, 1073709/32768],
          colors = [13421773/67108864, 13421773/33554432, 1], annotations = JArr []\<rparr> \<and>
   int (length [1/2, -1/2, 1073709/32768 :: real]) = 3 * 1 \<and>
   int (length [13421773/67108864, 13421773/33554432, 1 :: real]) = 3 * 1 \<and>
   getInt32 one_vertex_buffer 4 = Inr 1"
  using parse_lengths[OF one_vertex_parse] one_vertex_parse by simp

subsection \<open>C10: range errors after a valid header\<close>

text \<open>
  C10, as amended. On a buffer that starts with the valid header, \<^verbatim>\<open>parseLssnap\<close> throws a
  \<^verbatim>\<open>RangeError\<close> (not the format error, and no snapshot) exactly when the buffer has fewer
  than 12 bytes, or the vertex count field is negative, or the vertex count is at least 1
  and the buffer has fewer than \<open>16 + 9 * vertexCount\<close> bytes. With a vertex count of 0, a
  buffer of 12 bytes or more is decoded to the snapshot without vertices.
\<close>

theorem range_error_iff:
  assumes "valid_header buf"
  shows "(parseLssnap jp buf = Inl RangeError \<longleftrightarrow>
            length buf < 12 \<or> header_vertexCount buf < 0 \<or>
            (0 < header_vertexCount buf \<and>
             int (length buf) < 16 + 9 * header_vertexCount buf)) \<and>
         (12 \<le> length buf \<and> header_vertexCount buf = 0 \<longrightarrow>
            (\<exists>d. parseLssnap jp buf = Inr d \<and> vertexCount d = 0 \<and>
                 positions d = [] \<and> colors d = []))"
  using assms by (simp add: parse_valid)

theorem range_error_iff_witness:
  "valid_header truncated_buffer \<and> header_vertexCount truncated_buffer = 1 \<and>
   length truncated_buffer = 20 \<and>
   parseLssnap json_parse_sample truncated_buffer = Inl RangeError \<and>
   valid_header negative_count_buffer \<and> header_vertexCount negative_count_buffer = - 1 \<and>
   parseLssnap json_parse_sample negative_count_buffer = Inl RangeError"
proof -
  have v: "valid_header truncated_buffer" "valid_header negative_count_buffer"
    by code_simp+
  have c: "header_vertexCount truncated_buffer = 1" "length truncated_buffer = 20"
    "header_vertexCount negative_count_buffer = - 1"
    by code_simp+
  show ?thesis
    using range_error_iff[OF v(1), of json_parse_sample]
      range_error_iff[OF v(2), of json_parse_sample] v c by simp
qed

text \<open>
  C10 as stated fails when the vertex count is 0: the loop reads nothing, so a buffer of
  12 bytes, shorter than \<open>16 + 9 * 0\<close>, is decoded to the empty snapshot.
\<close>

theorem zero_vertices_counterexample:
  "valid_header header_only_12 \<and> header_vertexCount header_only_12 = 0 \<and>
   int (length header_only_12) < 16 + 9 * header_vertexCount header_only_12 \<and>
   parseLssnap json_parse_sample header_only_12 =
     Inr \<lparr>vertexCount = 0, positions = [], colors = [], annotations = JArr []\<rparr>"
  by code_simp

subsection \<open>C7: the annotation block\<close>

lemma parse_readable:
  assumes "vertices_readable buf"
  shows "\<exists>d. parseLssnap jp buf = Inr d \<and>
           annotations d = parse_annotations jp buf (annot_offset buf) (header_annotLen buf)"
proof -
  from assms have v: "valid_header buf" by (simp add: vertices_readable_def)
  from assms have ok: "\<not> (length buf < 12 \<or> header_vertexCount buf < 0
        \<or> (0 < header_vertexCount buf \<and> int (length buf) < 16 + 9 * header_vertexCount buf))"
    by (auto simp: vertices_readable_def)
  show ?thesis
    unfolding parse_valid[OF v] using ok by simp
qed

text \<open>
  What the decoder does with a text that \<^verbatim>\<open>JSON.parse\<close> accepts: it stores the parsed
  value, whatever its shape.
\<close>

lemma annotation_block_parsed:
  assumes "vertices_readable buf" and "0 < header_annotLen buf"
    and "annot_offset buf + nat (header_annotLen buf) \<le> length buf"
    and "jp (annot_block buf) = Some v"
  shows "\<exists>d. parseLssnap jp buf = Inr d \<and> annotations d = v"
  using parse_readable[OF assms(1), of jp] assms(2-4)
  by (simp add: parse_annotations_def annot_block_def)

text \<open>
  C7, as amended. When the header and the vertex records of a buffer can be read,
  \<^verbatim>\<open>parseLssnap\<close> returns a snapshot whatever the annotation block holds and whatever the
  JSON parser does with it: the block never makes the decoder throw. The annotation list
  of that snapshot is empty when the block length is not positive (the result does not
  depend on the parser: no parse is attempted), when the block does not lie inside the
  buffer, and when \<^verbatim>\<open>JSON.parse\<close> throws on its text.
\<close>

theorem annotation_block_result:
  assumes "vertices_readable buf"
  shows "\<exists>d. parseLssnap jp buf = Inr d \<and>
           (header_annotLen buf \<le> 0 \<longrightarrow> annotations d = JArr []) \<and>
           (0 < header_annotLen buf \<and> length buf < annot_offset buf + nat (header_annotLen buf)
              \<longrightarrow> annotations d = JArr []) \<and>
           (0 < header_annotLen buf \<and> annot_offset buf + nat (header_annotLen buf) \<le> length buf
              \<and> jp (annot_block buf) = None \<longrightarrow> annotations d = JArr [])"
  using parse_readable[OF assms, of jp]
  by (auto simp: parse_annotations_def annot_block_def)

theorem annotation_block_result_witness:
  "vertices_readable malformed_block_buffer \<and> header_annotLen malformed_block_buffer = 1 \<and>
   annot_block malformed_block_buffer = [0x7B] \<and> json_parse_sample [0x7B] = None \<and>
   parseLssnap json_parse_sample malformed_block_buffer =
     Inr \<lparr>vertexCount = 0, positions = [], colors = [], annotations = JArr []\<rparr>"
proof -
  have r: "vertices_readable malformed_block_buffer" by code_simp
  have e: "header_annotLen malformed_block_buffer = 1" "annot_offset malformed_block_buffer = 16"
    "length malformed_block_buffer = 17"
    "annot_block malformed_block_buffer = [0x7B]" "json_parse_sample [0x7B] = None"
    by code_simp+
  have p: "parseLssnap json_parse_sample malformed_block_buffer =
     Inr \<lparr>vertexCount = 0, positions = [], colors = [], annotations = JArr []\<rparr>"
    by code_simp
  from annotation_block_result[OF r, of json_parse_sample] r e p show ?thesis by simp
qed

text \<open>
  C7 as stated fails on a block of the wrong shape: the text \<^verbatim>\<open>{}\<close> is well-formed JSON,
  \<^verbatim>\<open>JSON.parse\<close> returns the empty object, and the snapshot's \<^verbatim>\<open>annotations\<close> is that
  object, not the empty list.
\<close>

theorem wrong_shape_counterexample:
  "vertices_readable object_block_buffer \<and> header_annotLen object_block_buffer = 2 \<and>
   annot_block object_block_buffer = [0x7B, 0x7D] \<and>
   parseLssnap json_parse_sample object_block_buffer =
     Inr \<lparr>vertexCount = 0, positions = [], colors = [], annotations = JObj []\<rparr> \<and>
   JObj [] \<noteq> JArr []"
  by code_simp

section \<open>Proofs: the round trip through the wire layout\<close>

lemma le16_int16_bytes:
  "le16 (int16_bytes k ! 0) (int16_bytes k ! 1) = word_of_int k"
  unfolding le16_def int16_bytes_def Let_def
  by (rule bit_word_eqI) (auto simp: bit_word_cat_iff bit_ucast_iff bit_drop_bit_eq not_less)

lemma sint_le16_int16_bytes:
  "- 32768 \<le> k \<Longrightarrow> k < 32768 \<Longrightarrow> sint (le16 (int16_bytes k ! 0) (int16_bytes k ! 1)) = k"
  unfolding le16_int16_bytes by (simp add: sint_sbintrunc' signed_take_bit_int_eq_self)

lemma le32_int32_bytes:
  "le32 (int32_bytes k ! 0) (int32_bytes k ! 1) (int32_bytes k ! 2) (int32_bytes k ! 3) = word_of_int k"
  unfolding le32_def le16_def int32_bytes_def Let_def
  by (rule bit_word_eqI) (auto simp: bit_word_cat_iff bit_ucast_iff bit_drop_bit_eq not_less)

lemma sint_le32_int32_bytes:
  "- 2147483648 \<le> k \<Longrightarrow> k < 2147483648 \<Longrightarrow>
   sint (le32 (int32_bytes k ! 0) (int32_bytes k ! 1) (int32_bytes k ! 2) (int32_bytes k ! 3)) = k"
  unfolding le32_int32_bytes by (simp add: sint_sbintrunc' signed_take_bit_int_eq_self)

lemma on_grid_decode:
  assumes "on_grid c"
  shows "fround (js_div (real_of_int (sint (le16 (int16_bytes (round (c * 1000)) ! 0)
           (int16_bytes (round (c * 1000)) ! 1)))) 1000) = binary32_of c"
proof -
  let ?k = "round (c * 1000)"
  from assms have k: "real_of_int ?k = c * 1000" and b: "\<bar>c\<bar> \<le> 32767 / 1000"
    by (simp_all add: on_grid_def)
  from b have "\<bar>c * 1000\<bar> \<le> 32767" by (simp add: abs_mult)
  with k have "\<bar>real_of_int ?k\<bar> \<le> 32767" by simp
  then have "- 32768 \<le> ?k" "?k < 32768" by linarith+
  then have "sint (le16 (int16_bytes ?k ! 0) (int16_bytes ?k ! 1)) = ?k"
    by (rule sint_le16_int16_bytes)
  with k show ?thesis by (simp add: js_div_def binary32_of_def)
qed

lemma length_int16_bytes [simp]: "length (int16_bytes k) = 2"
  by (simp add: int16_bytes_def Let_def)

lemma length_int32_bytes [simp]: "length (int32_bytes k) = 4"
  by (simp add: int32_bytes_def Let_def)

lemma length_encode_vertex [simp]: "length (encode_vertex v) = 9"
  by (simp add: encode_vertex_def)

lemma length_concat_records: "length (concat (map encode_vertex vs)) = 9 * length vs"
  by (induction vs) simp_all

lemma length_encode: "length (encode vs) = 16 + 9 * length vs"
  by (simp add: encode_def length_concat_records)

lemma nth_concat_records:
  "j < length vs \<Longrightarrow> t < 9 \<Longrightarrow>
   concat (map encode_vertex vs) ! (9 * j + t) = encode_vertex (vs ! j) ! t"
proof (induction vs arbitrary: j)
  case Nil
  then show ?case by simp
next
  case (Cons v vs)
  show ?case
  proof (cases j)
    case 0
    with Cons.prems show ?thesis by (simp add: nth_append)
  next
    case (Suc j')
    with Cons.prems have "j' < length vs" by simp
    from Cons.IH[OF this Cons.prems(2)] Suc show ?thesis by (simp add: nth_append)
  qed
qed

lemma list4: "length xs = 4 \<Longrightarrow> xs = [xs ! 0, xs ! 1, xs ! 2, xs ! 3]"
  by (rule nth_equalityI) (auto simp: less_Suc_eq numeral_eq_Suc)

lemma encode_header:
  "encode vs = [0x4C, 0x53, 0x53, 1,
      int32_bytes (int (length vs)) ! 0, int32_bytes (int (length vs)) ! 1,
      int32_bytes (int (length vs)) ! 2, int32_bytes (int (length vs)) ! 3,
      int32_bytes 0 ! 0, int32_bytes 0 ! 1, int32_bytes 0 ! 2, int32_bytes 0 ! 3,
      0, 0, 0, 0] @ concat (map encode_vertex vs)"
proof -
  have "int32_bytes k = [int32_bytes k ! 0, int32_bytes k ! 1, int32_bytes k ! 2, int32_bytes k ! 3]" for k
    by (rule list4) simp
  from this[of "int (length vs)"] this[of 0] show ?thesis
    unfolding encode_def by (metis append_Cons append_Nil)
qed

lemma valid_header_encode: "valid_header (encode vs)"
  by (simp add: valid_header_def encode_header)

lemma header_vertexCount_encode:
  "length vs < 2147483648 \<Longrightarrow> header_vertexCount (encode vs) = int (length vs)"
  unfolding header_vertexCount_def encode_header
  using sint_le32_int32_bytes[of "int (length vs)"] by simp

lemma header_annotLen_encode: "header_annotLen (encode vs) = 0"
  unfolding header_annotLen_def encode_header
  using sint_le32_int32_bytes[of 0] by simp

lemma nth_encode_record:
  "j < length vs \<Longrightarrow> t < 9 \<Longrightarrow> encode vs ! (16 + 9 * j + t) = encode_vertex (vs ! j) ! t"
  unfolding encode_header using nth_concat_records[of j vs t]
  by (simp add: nth_append add.assoc)

lemma encode_vertex_nth:
  "encode_vertex v ! 0 = int16_bytes (round (vx (v_point v) * 1000)) ! 0"
  "encode_vertex v ! 1 = int16_bytes (round (vx (v_point v) * 1000)) ! 1"
  "encode_vertex v ! 2 = int16_bytes (round (vy (v_point v) * 1000)) ! 0"
  "encode_vertex v ! 3 = int16_bytes (round (vy (v_point v) * 1000)) ! 1"
  "encode_vertex v ! 4 = int16_bytes (round (vz (v_point v) * 1000)) ! 0"
  "encode_vertex v ! 5 = int16_bytes (round (vz (v_point v) * 1000)) ! 1"
  "encode_vertex v ! 6 = v_red v"
  "encode_vertex v ! 7 = v_green v"
  "encode_vertex v ! 8 = v_blue v"
  by (simp_all add: encode_vertex_def nth_append)

lemma vertex_pos_encode:
  assumes "j < length vs" and "vertex_on_grid (vs ! j)"
  shows "vertex_pos (encode vs) (16 + 9 * j) = map binary32_of (flat (v_point (vs ! j)))"
proof -
  have n: "encode vs ! (16 + 9 * j) = encode_vertex (vs ! j) ! 0"
    "encode vs ! (16 + 9 * j + 1) = encode_vertex (vs ! j) ! 1"
    "encode vs ! (16 + 9 * j + 2) = encode_vertex (vs ! j) ! 2"
    "encode vs ! (16 + 9 * j + 3) = encode_vertex (vs ! j) ! 3"
    "encode vs ! (16 + 9 * j + 4) = encode_vertex (vs ! j) ! 4"
    "encode vs ! (16 + 9 * j + 5) = encode_vertex (vs ! j) ! 5"
    using nth_encode_record[OF assms(1), of 0] nth_encode_record[OF assms(1), of 1]
      nth_encode_record[OF assms(1), of 2] nth_encode_record[OF assms(1), of 3]
      nth_encode_record[OF assms(1), of 4] nth_encode_record[OF assms(1), of 5]
    by simp_all
  from assms(2) have g: "on_grid (vx (v_point (vs ! j)))" "on_grid (vy (v_point (vs ! j)))"
    "on_grid (vz (v_point (vs ! j)))"
    by (simp_all add: vertex_on_grid_def)
  show ?thesis
    unfolding vertex_pos_def n encode_vertex_nth flat_def list.map
    by (simp only: on_grid_decode[OF g(1)] on_grid_decode[OF g(2)] on_grid_decode[OF g(3)])
qed

lemma vertex_col_encode:
  assumes "j < length vs"
  shows "vertex_col (encode vs) (16 + 9 * j) = map binary32_of (color_ratios (vs ! j))"
proof -
  have n: "encode vs ! (16 + 9 * j + 6) = encode_vertex (vs ! j) ! 6"
    "encode vs ! (16 + 9 * j + 7) = encode_vertex (vs ! j) ! 7"
    "encode vs ! (16 + 9 * j + 8) = encode_vertex (vs ! j) ! 8"
    using nth_encode_record[OF assms(1), of 6] nth_encode_record[OF assms(1), of 7]
      nth_encode_record[OF assms(1), of 8]
    by simp_all
  show ?thesis
    unfolding vertex_col_def n encode_vertex_nth color_ratios_def list.map
    by (simp only: js_div_def binary32_of_def)
qed

lemma map_by_index: "map (\<lambda>j. g (vs ! j)) [0..<length vs] = map g vs"
  by (rule nth_equalityI) simp_all

text \<open>
  What the decoder returns on the encoding of a point set on the grid: the binary32
  values of the coordinates and of the colour ratios.
\<close>

lemma encode_decode_stored:
  assumes "\<forall>v \<in> set vs. vertex_on_grid v" and "length vs < 2147483648"
  shows "parseLssnap jp (encode vs) =
           Inr \<lparr>vertexCount = int (length vs),
                positions = concat (map (\<lambda>v. map binary32_of (flat (v_point v))) vs),
                colors = concat (map (\<lambda>v. map binary32_of (color_ratios v)) vs),
                annotations = JArr []\<rparr>"
proof -
  let ?buf = "encode vs"
  have vc: "header_vertexCount ?buf = int (length vs)"
    using assms(2) by (rule header_vertexCount_encode)
  have ok: "\<not> (length ?buf < 12 \<or> header_vertexCount ?buf < 0
        \<or> (0 < header_vertexCount ?buf \<and> int (length ?buf) < 16 + 9 * header_vertexCount ?buf))"
    by (simp add: vc length_encode)
  have pos: "map (\<lambda>j. vertex_pos ?buf (16 + 9 * j)) [0..<length vs] =
      map (\<lambda>v. map binary32_of (flat (v_point v))) vs"
  proof -
    have "map (\<lambda>j. vertex_pos ?buf (16 + 9 * j)) [0..<length vs] =
          map (\<lambda>j. map binary32_of (flat (v_point (vs ! j)))) [0..<length vs]"
      using assms(1) by (intro map_cong refl vertex_pos_encode) simp_all
    also have "\<dots> = map (\<lambda>v. map binary32_of (flat (v_point v))) vs"
      by (rule map_by_index[of "\<lambda>v. map binary32_of (flat (v_point v))"])
    finally show ?thesis .
  qed
  have col: "map (\<lambda>j. vertex_col ?buf (16 + 9 * j)) [0..<length vs] =
      map (\<lambda>v. map binary32_of (color_ratios v)) vs"
  proof -
    have "map (\<lambda>j. vertex_col ?buf (16 + 9 * j)) [0..<length vs] =
          map (\<lambda>j. map binary32_of (color_ratios (vs ! j))) [0..<length vs]"
      by (intro map_cong refl vertex_col_encode) simp_all
    also have "\<dots> = map (\<lambda>v. map binary32_of (color_ratios v)) vs"
      by (rule map_by_index[of "\<lambda>v. map binary32_of (color_ratios v)"])
    finally show ?thesis .
  qed
  show ?thesis
    unfolding parse_valid[OF valid_header_encode]
    using ok by (simp add: vc pos col header_annotLen_encode parse_annotations_def)
qed

subsection \<open>The error of the two roundings\<close>

lemma round_half_even_close: "\<bar>real_of_int (round_half_even y) - y\<bar> \<le> 1 / 2"
  unfolding round_half_even_def Let_def by (auto simp: abs_if) linarith+

lemma binexp_le:
  assumes "0 < x"
  shows "2 powi binexp x \<le> x"
proof (cases "1 \<le> x")
  case True
  then have pos: "0 < \<lfloor>x\<rfloor>" by linarith
  from bitlen_bounds[OF pos] have "2 ^ nat (bitlen \<lfloor>x\<rfloor> - 1) \<le> \<lfloor>x\<rfloor>" by simp
  then have "(2::real) ^ nat (bitlen \<lfloor>x\<rfloor> - 1) \<le> real_of_int \<lfloor>x\<rfloor>"
    by (metis of_int_le_iff of_int_numeral of_int_power)
  also have "\<dots> \<le> x" by linarith
  finally have le: "(2::real) ^ nat (bitlen \<lfloor>x\<rfloor> - 1) \<le> x" .
  from pos have "1 \<le> bitlen \<lfloor>x\<rfloor>" by (auto simp: bitlen_alt_def)
  then have "(2::real) powi (bitlen \<lfloor>x\<rfloor> - 1) = 2 ^ nat (bitlen \<lfloor>x\<rfloor> - 1)"
    by (simp add: power_int_def)
  with le True show ?thesis by (simp add: binexp_def)
next
  case False
  with assms have "1 < 1 / x" by simp
  then have n: "0 < \<lceil>1 / x\<rceil> - 1" by linarith
  let ?n = "\<lceil>1 / x\<rceil> - 1"
  let ?m = "bitlen ?n"
  from bitlen_bounds[OF n] have "?n < 2 ^ nat ?m" by simp
  then have "\<lceil>1 / x\<rceil> \<le> 2 ^ nat ?m" by linarith
  then have "real_of_int \<lceil>1 / x\<rceil> \<le> 2 ^ nat ?m"
    by (metis of_int_le_iff of_int_numeral of_int_power)
  moreover have "1 / x \<le> real_of_int \<lceil>1 / x\<rceil>" by linarith
  ultimately have "1 / x \<le> 2 ^ nat ?m" by linarith
  with assms have "1 / 2 ^ nat ?m \<le> x"
    by (simp add: field_simps)
  moreover have "(2::real) powi (- ?m) = 1 / 2 ^ nat ?m"
    using bitlen_nonneg[of ?n] by (simp add: power_int_minus field_simps power_int_def)
  ultimately show ?thesis using False by (simp add: binexp_def)
qed

lemma round_binary_close:
  "\<bar>round_binary p emin x - x\<bar> \<le> max \<bar>x\<bar> (2 powi emin) / 2 ^ p"
proof (cases "x = 0")
  case True
  then show ?thesis by (simp add: round_binary_def)
next
  case False
  define e where "e = max (binexp \<bar>x\<bar>) emin"
  define ulp :: real where "ulp = 2 powi (e - int p + 1)"
  have ulp_pos: "0 < ulp" by (simp add: ulp_def)
  have r: "round_binary p emin x = real_of_int (round_half_even (x / ulp)) * ulp"
    using False by (simp add: round_binary_def Let_def e_def ulp_def)
  have "\<bar>round_binary p emin x - x\<bar> =
      \<bar>real_of_int (round_half_even (x / ulp)) - x / ulp\<bar> * ulp"
    using ulp_pos unfolding r by (simp add: abs_mult[symmetric] field_simps)
  also have "\<dots> \<le> 1 / 2 * ulp"
    using round_half_even_close[of "x / ulp"] ulp_pos by (intro mult_right_mono) simp_all
  also have "1 / 2 * ulp = 2 powi e / 2 ^ p"
    unfolding ulp_def by (simp add: power_int_diff power_int_add)
  also have "2 powi e \<le> max \<bar>x\<bar> (2 powi emin)"
  proof (cases "binexp \<bar>x\<bar> \<le> emin")
    case True
    then show ?thesis by (simp add: e_def max_def)
  next
    case False
    then have "e = binexp \<bar>x\<bar>" by (simp add: e_def)
    with binexp_le[of "\<bar>x\<bar>"] \<open>x \<noteq> 0\<close> show ?thesis by simp
  qed
  finally show ?thesis by (simp add: divide_right_mono)
qed

lemma binary32_of_close:
  assumes "\<bar>c\<bar> \<le> b" and "1 \<le> b"
  shows "\<bar>binary32_of c - c\<bar> \<le> b / 2 ^ 24 + b / 2 ^ 52"
proof -
  define d where "d = round_binary 53 (- 1022) c"
  have small: "(2::real) powi (- 1022) \<le> 1" "(2::real) powi (- 126) \<le> 1"
    by (simp_all add: power_int_minus field_simps)
  have "\<bar>d - c\<bar> \<le> max \<bar>c\<bar> (2 powi (- 1022)) / 2 ^ 53"
    unfolding d_def by (rule round_binary_close)
  also have "\<dots> \<le> b / 2 ^ 53"
    using assms small by (intro divide_right_mono) auto
  finally have dc: "\<bar>d - c\<bar> \<le> b / 2 ^ 53" .
  then have dabs: "\<bar>d\<bar> \<le> b + b / 2 ^ 53" using assms(1) by linarith
  have "\<bar>fround d - d\<bar> \<le> max \<bar>d\<bar> (2 powi (- 126)) / 2 ^ 24"
    unfolding fround_def by (rule round_binary_close)
  also have "\<dots> \<le> (b + b / 2 ^ 53) / 2 ^ 24"
    using dabs assms small by (intro divide_right_mono) auto
  finally have fd: "\<bar>fround d - d\<bar> \<le> (b + b / 2 ^ 53) / 2 ^ 24" .
  have "\<bar>binary32_of c - c\<bar> \<le> \<bar>fround d - d\<bar> + \<bar>d - c\<bar>"
    unfolding binary32_of_def d_def by linarith
  also have "\<dots> \<le> (b + b / 2 ^ 53) / 2 ^ 24 + b / 2 ^ 53" using fd dc by linarith
  also have "\<dots> \<le> b / 2 ^ 24 + b / 2 ^ 52" using assms(2) by (simp add: field_simps)
  finally show ?thesis .
qed

lemma coordinate_close:
  assumes "on_grid c"
  shows "\<bar>binary32_of c - c\<bar> \<le> 1 / 1000"
proof -
  from assms have "\<bar>c\<bar> \<le> 33" by (simp add: on_grid_def)
  from binary32_of_close[OF this] have "\<bar>binary32_of c - c\<bar> \<le> 33 / 2 ^ 24 + 33 / 2 ^ 52"
    by simp
  also have "\<dots> \<le> (1 / 1000 :: real)" by simp
  finally show ?thesis .
qed

lemma ratio_close_nat:
  assumes "n < 256"
  shows "\<bar>binary32_of (real n / 255) - real n / 255\<bar> \<le> 1 / 10 ^ 7"
proof -
  from assms have "real n \<le> 255" by linarith
  then have "\<bar>real n / 255\<bar> \<le> 1" by simp
  from binary32_of_close[OF this]
  have "\<bar>binary32_of (real n / 255) - real n / 255\<bar> \<le> 1 / 2 ^ 24 + 1 / 2 ^ 52"
    by simp
  also have "\<dots> \<le> (1 / 10 ^ 7 :: real)" by simp
  finally show ?thesis .
qed

lemma ratio_close:
  "\<bar>binary32_of (real (unat (b :: byte)) / 255) - real (unat b) / 255\<bar> \<le> 1 / 10 ^ 7"
proof (rule ratio_close_nat)
  show "unat b < 256" using unsigned_less[of b] by simp
qed

lemma list_all2_concat_map:
  "(\<And>v. v \<in> set vs \<Longrightarrow> list_all2 P (f v) (g v)) \<Longrightarrow>
   list_all2 P (concat (map f vs)) (concat (map g vs))"
  by (induction vs) (auto intro: list_all2_appendI)

subsection \<open>C3: encoding and decoding\<close>

text \<open>
  C3, as amended. For every point set whose coordinates are exact multiples of 0.001
  within \<open>\<plusminus>32.767\<close> and whose colours are byte triples (and that is small enough for its count
  to fit the int32 field), decoding its encoding in the wire layout returns a snapshot
  with that vertex count and with no annotations. In order, every coordinate is the
  binary32 value that the decoder keeps of the original and lies within 0.001 of it, and
  every colour channel is the binary32 value that the decoder keeps of \<open>byte / 255\<close>,
  which lies within \<open>10\<^sup>-\<^sup>7\<close> of \<open>byte / 255\<close> and is \<open>byte / 255\<close> itself for the bytes \<open>0\<close> and
  \<open>255\<close>.
\<close>

theorem roundtrip:
  assumes "\<forall>v \<in> set vs. vertex_on_grid v" and "length vs < 2147483648"
  shows "\<exists>d. parseLssnap jp (encode vs) = Inr d \<and>
           vertexCount d = int (length vs) \<and>
           positions d = concat (map (\<lambda>v. map binary32_of (flat (v_point v))) vs) \<and>
           list_all2 (\<lambda>decoded original. \<bar>decoded - original\<bar> \<le> 1 / 1000)
             (positions d) (concat (map (\<lambda>v. flat (v_point v)) vs)) \<and>
           colors d = concat (map (\<lambda>v. map binary32_of (color_ratios v)) vs) \<and>
           list_all2 (\<lambda>decoded ratio. \<bar>decoded - ratio\<bar> \<le> 1 / 10 ^ 7)
             (colors d) (concat (map color_ratios vs)) \<and>
           binary32_of (real (unat (0 :: byte)) / 255) = 0 \<and>
           binary32_of (real (unat (255 :: byte)) / 255) = 1 \<and>
           annotations d = JArr []"
proof -
  have p: "list_all2 (\<lambda>decoded original. \<bar>decoded - original\<bar> \<le> 1 / 1000)
      (concat (map (\<lambda>v. map binary32_of (flat (v_point v))) vs))
      (concat (map (\<lambda>v. flat (v_point v)) vs))"
  proof (rule list_all2_concat_map)
    fix v assume "v \<in> set vs"
    with assms(1) have "vertex_on_grid v" by simp
    then have "on_grid (vx (v_point v))" "on_grid (vy (v_point v))" "on_grid (vz (v_point v))"
      by (simp_all add: vertex_on_grid_def)
    from this[THEN coordinate_close]
    show "list_all2 (\<lambda>decoded original. \<bar>decoded - original\<bar> \<le> 1 / 1000)
        (map binary32_of (flat (v_point v))) (flat (v_point v))"
      unfolding flat_def by (simp del: divide_le_eq_numeral1 le_divide_eq_numeral1)
  qed
  have c: "list_all2 (\<lambda>decoded ratio. \<bar>decoded - ratio\<bar> \<le> 1 / 10 ^ 7)
      (concat (map (\<lambda>v. map binary32_of (color_ratios v)) vs))
      (concat (map color_ratios vs))"
    by (intro list_all2_concat_map)
      (simp only: color_ratios_def list.map list_all2_Cons list_all2_Nil ratio_close simp_thms)
  have e: "binary32_of (real (unat (0 :: byte)) / 255) = 0"
    "binary32_of (real (unat (255 :: byte)) / 255) = 1"
    by code_simp+
  show ?thesis
    unfolding encode_decode_stored[OF assms, of jp] using p c e by simp
qed

text \<open>
  The example of the specification: the points \<open>(1, 2, -3)\<close> and \<open>(0, 0, 0)\<close> with colours
  \<open>(255, 0, 0)\<close> and \<open>(0, 255, 0)\<close> decode to those coordinates and to the colour ratios
  \<open>(1, 0, 0)\<close> and \<open>(0, 1, 0)\<close>.
\<close>

theorem roundtrip_witness:
  "vertex_on_grid (Vertex (Vector3 1 2 (- 3)) 255 0 0) \<and>
   vertex_on_grid (Vertex (Vector3 0 0 0) 0 255 0) \<and>
   parseLssnap json_parse_sample (encode example_points) =
     Inr \<lparr>vertexCount = 2, positions = [1, 2, - 3, 0, 0, 0], colors = [1, 0, 0, 0, 1, 0],
          annotations = JArr []\<rparr> \<and>
   concat (map (\<lambda>v. flat (v_point v)) example_points) = [1, 2, - 3, 0, 0, 0] \<and>
   concat (map color_ratios example_points) = [1, 0, 0, 0, 1, 0]"
proof -
  have g: "\<forall>v \<in> set example_points. vertex_on_grid v" by code_simp
  have l: "length example_points < 2147483648" by (simp add: example_points_def)
  have e: "vertex_on_grid (Vertex (Vector3 1 2 (- 3)) 255 0 0)"
    "vertex_on_grid (Vertex (Vector3 0 0 0) 0 255 0)"
    "parseLssnap json_parse_sample (encode example_points) =
     Inr \<lparr>vertexCount = 2, positions = [1, 2, - 3, 0, 0, 0], colors = [1, 0, 0, 0, 1, 0],
          annotations = JArr []\<rparr>"
    "concat (map (\<lambda>v. flat (v_point v)) example_points) = [1, 2, - 3, 0, 0, 0]"
    "concat (map color_ratios example_points) = [1, 0, 0, 0, 1, 0]"
    by code_simp+
  from roundtrip[OF g l, of json_parse_sample] e show ?thesis by simp
qed

text \<open>
  A colour channel is not always \<open>byte / 255\<close>: the bytes \<open>51\<close> and \<open>102\<close> decode to
  \<open>13421773 / 67108864\<close> and \<open>13421773 / 33554432\<close>, the binary32 neighbours of \<open>1 / 5\<close> and
  \<open>2 / 5\<close>.
\<close>

theorem rounded_colour_counterexample:
  "list_all vertex_on_grid rounded_colour_point \<and>
   parseLssnap json_parse_sample (encode rounded_colour_point) =
     Inr \<lparr>vertexCount = 1, positions = [0, 0, 0],
          colors = [13421773 / 67108864, 13421773 / 33554432, 1], annotations = JArr []\<rparr> \<and>
   concat (map color_ratios rounded_colour_point) = [1 / 5, 2 / 5, 1] \<and>
   [13421773 / 67108864, 13421773 / 33554432, 1] \<noteq> [1 / 5, 2 / 5, 1 :: real]"
  by code_simp

section \<open>Proofs: the subject filter\<close>

lemma Min_insert_min:
  "finite S \<Longrightarrow> Min (insert (min a b) S) = Min (insert a (insert b S))" for a :: real
  by (cases "S = {}") (simp_all add: min.assoc)

lemma Max_insert_max:
  "finite S \<Longrightarrow> Max (insert (max a b) S) = Max (insert a (insert b S))" for a :: real
  by (cases "S = {}") (simp_all add: max.assoc)

lemma setFromPoints_Box3:
  "setFromPoints (Box3 mn mx) ps =
     Box3 (Vector3 (Min (insert (vx mn) (vx ` set ps))) (Min (insert (vy mn) (vy ` set ps)))
                   (Min (insert (vz mn) (vz ` set ps))))
          (Vector3 (Max (insert (vx mx) (vx ` set ps))) (Max (insert (vy mx) (vy ` set ps)))
                   (Max (insert (vz mx) (vz ` set ps))))"
proof (induction ps arbitrary: mn mx)
  case Nil
  then show ?case by simp
next
  case (Cons p ps)
  show ?case
    by (simp add: Cons.IH Min_insert_min Max_insert_max del: Min_insert Max_insert)
qed

lemma computeBoundingBox_points:
  assumes "points_of array \<noteq> []"
  shows "computeBoundingBox array =
     Box3 (Vector3 (Min (vx ` set (points_of array))) (Min (vy ` set (points_of array)))
                   (Min (vz ` set (points_of array))))
          (Vector3 (Max (vx ` set (points_of array))) (Max (vy ` set (points_of array)))
                   (Max (vz ` set (points_of array))))"
proof -
  from assms obtain p ps where e: "points_of array = p # ps" by (cases "points_of array") auto
  show ?thesis
    unfolding computeBoundingBox_def e by (simp add: setFromPoints_Box3 del: Min_insert Max_insert)
qed

lemma computeBoundingBox_empty:
  "points_of array = [] \<Longrightarrow> computeBoundingBox array = EmptyBox"
  by (simp add: computeBoundingBox_def)

lemma length_points_of: "length (points_of xs) = length xs div 3"
  by (induction xs rule: points_of.induct) simp_all

lemma points_of_nth:
  "3 * i + 2 < length xs \<Longrightarrow>
   points_of xs ! i = Vector3 (xs ! (i * 3)) (xs ! (i * 3 + 1)) (xs ! (i * 3 + 2))"
proof (induction xs arbitrary: i rule: points_of.induct)
  case (1 a b c rest)
  show ?case
  proof (cases i)
    case 0
    then show ?thesis by simp
  next
    case (Suc i')
    with "1.prems" have "3 * i' + 2 < length rest" by simp
    from "1.IH"[OF this] Suc show ?thesis by (simp add: numeral_eq_Suc)
  qed
qed simp_all

lemma parse_wf: "parseLssnap jp buf = Inr d \<Longrightarrow> wf_snapshot d"
proof -
  assume "parseLssnap jp buf = Inr d"
  then obtain vc len pos col off where
    nn: "\<not> vc < 0" and
    loop: "vertex_loop buf (nat vc) 0 16 (replicate (nat (vc * 3)) 0)
             (replicate (nat (vc * 3)) 0) = Inr (pos, col, off)" and
    d: "d = \<lparr>vertexCount = vc, positions = pos, colors = col,
             annotations = parse_annotations jp buf off len\<rparr>"
    by (auto simp: parseLssnap_def split: sum.splits if_splits prod.splits)
  from vertex_loop_length[OF loop] nn d show ?thesis by (simp add: wf_snapshot_def)
qed

lemma length_vertices_of:
  "wf_snapshot data \<Longrightarrow> length (vertices_of data) = nat (vertexCount data)"
  by (auto simp: wf_snapshot_def vertices_of_def length_points_of)

lemma vertices_of_nth:
  assumes "wf_snapshot data" and "int vi < vertexCount data"
  shows "vertices_of data ! vi =
     (Vector3 (positions data ! (vi * 3)) (positions data ! (vi * 3 + 1)) (positions data ! (vi * 3 + 2)),
      Vector3 (colors data ! (vi * 3)) (colors data ! (vi * 3 + 1)) (colors data ! (vi * 3 + 2)))"
proof -
  from assms have b: "3 * vi + 2 < length (positions data)" "3 * vi + 2 < length (colors data)"
    by (auto simp: wf_snapshot_def)
  from assms have "vi < length (points_of (positions data))" "vi < length (points_of (colors data))"
    by (auto simp: wf_snapshot_def length_points_of)
  then show ?thesis
    by (simp add: vertices_of_def points_of_nth[OF b(1)] points_of_nth[OF b(2)])
qed

lemma filter_loop_eq:
  assumes "wf_snapshot data"
  shows "filter_loop data xCut zCut yCutMax vi filtPos filtCol =
     (filtPos @ concat (map (flat \<circ> fst) (filter (cut_test xCut zCut yCutMax) (drop vi (vertices_of data)))),
      filtCol @ concat (map (flat \<circ> snd) (filter (cut_test xCut zCut yCutMax) (drop vi (vertices_of data)))))"
  using assms
proof (induction data xCut zCut yCutMax vi filtPos filtCol rule: filter_loop.induct)
  case (1 data xCut zCut yCutMax vi filtPos filtCol)
  note wf = "1.prems"
  show ?case
  proof (cases "int vi < vertexCount data")
    case False
    with wf have "length (vertices_of data) \<le> vi" by (simp add: length_vertices_of)
    with False show ?thesis by (simp add: filter_loop.simps[of data xCut zCut yCutMax vi])
  next
    case True
    let ?x = "positions data ! (vi * 3)" and ?y = "positions data ! (vi * 3 + 1)"
      and ?z = "positions data ! (vi * 3 + 2)"
    let ?c = "Vector3 (colors data ! (vi * 3)) (colors data ! (vi * 3 + 1)) (colors data ! (vi * 3 + 2))"
    from True wf have lt: "vi < length (vertices_of data)" by (simp add: length_vertices_of)
    have nth: "vertices_of data ! vi = (Vector3 ?x ?y ?z, ?c)"
      using wf True by (rule vertices_of_nth)
    have dr: "drop vi (vertices_of data) = (Vector3 ?x ?y ?z, ?c) # drop (Suc vi) (vertices_of data)"
      using Cons_nth_drop_Suc[OF lt] nth by simp
    have step: "filter_loop data xCut zCut yCutMax vi filtPos filtCol =
        (if ?x \<ge> xCut \<and> ?z \<le> zCut \<and> ?y \<ge> yCutMax
         then filter_loop data xCut zCut yCutMax (Suc vi) (filtPos @ [?x, ?y, ?z])
                (filtCol @ [colors data ! (vi * 3), colors data ! (vi * 3 + 1),
                            colors data ! (vi * 3 + 2)])
         else filter_loop data xCut zCut yCutMax (Suc vi) filtPos filtCol)"
      using True by (simp add: filter_loop.simps[of data xCut zCut yCutMax vi] Let_def)
    show ?thesis
    proof (cases "?x \<ge> xCut \<and> ?z \<le> zCut \<and> ?y \<ge> yCutMax")
      case k: True
      then have c: "cut_test xCut zCut yCutMax (Vector3 ?x ?y ?z, ?c)"
        by (simp add: cut_test_def)
      from k have "filter_loop data xCut zCut yCutMax vi filtPos filtCol =
          filter_loop data xCut zCut yCutMax (Suc vi) (filtPos @ [?x, ?y, ?z])
                (filtCol @ [colors data ! (vi * 3), colors data ! (vi * 3 + 1),
                            colors data ! (vi * 3 + 2)])"
        by (simp only: step if_True simp_thms)
      also note "1.IH"(1)[OF True refl refl refl k wf]
      finally show ?thesis unfolding dr using c by (simp add: flat_def)
    next
      case k: False
      then have c: "\<not> cut_test xCut zCut yCutMax (Vector3 ?x ?y ?z, ?c)"
        by (simp add: cut_test_def)
      from k have "filter_loop data xCut zCut yCutMax vi filtPos filtCol =
          filter_loop data xCut zCut yCutMax (Suc vi) filtPos filtCol"
        by (simp only: step if_False simp_thms)
      also note "1.IH"(2)[OF True refl refl refl k wf]
      finally show ?thesis unfolding dr using c by simp
    qed
  qed
qed

lemma subject_filter_keeps:
  assumes "wf_snapshot data"
  shows "subject_filter depthFraction heightFraction data =
           (concat (map (flat \<circ> fst) (kept depthFraction heightFraction data)),
            concat (map (flat \<circ> snd) (kept depthFraction heightFraction data)))"
proof (cases "points_of (positions data) = []")
  case True
  then have "vertices_of data = []" by (simp add: vertices_of_def)
  with True show ?thesis
    by (simp add: subject_filter_def computeBoundingBox_empty kept_def)
next
  case False
  let ?pts = "points_of (positions data)"
  have t: "cut_test ((Min (vx ` set ?pts) + Max (vx ` set ?pts)) * 0.5)
             (Min (vz ` set ?pts) + (Max (vz ` set ?pts) - Min (vz ` set ?pts)) * depthFraction)
             (Min (vy ` set ?pts) + (Max (vy ` set ?pts) - Min (vy ` set ?pts)) * heightFraction) =
           (\<lambda>pc. keeps depthFraction heightFraction ?pts (fst pc))"
    by (rule ext) (simp add: cut_test_def keeps_def Let_def)
  show ?thesis
    unfolding subject_filter_def computeBoundingBox_points[OF False] kept_def
    by (simp add: Let_def filter_loop_eq[OF assms] t[symmetric])
qed

lemma keeps_cube:
  "spans_cube pts \<Longrightarrow> keeps 0.75 0.5 pts (fst pc) = in_subject_region pc"
  by (auto simp: spans_cube_def keeps_def in_subject_region_def Let_def)

subsection \<open>C4: what the filter keeps\<close>

text \<open>
  C4. On every snapshot that satisfies the invariant of the data model (every snapshot
  that \<^verbatim>\<open>parseLssnap\<close> returns does, lemma \<open>parse_wf\<close>), the filter block returns the points,
  and in parallel the colours, of exactly the vertices with \<open>x \<ge> centerX\<close>,
  \<open>z \<le> minZ + zRange * depthFraction\<close> and \<open>y \<ge> minY + yRange * heightFraction\<close>, the
  bounding box being that of all points, in their original order. In particular, with the
  fractions 0.75 and 0.5 of the trackball variant on a point set that spans \<open>[0, 10]\<close> on
  each axis, it keeps exactly the vertices with \<open>x \<ge> 5\<close>, \<open>z \<le> 7.5\<close> and \<open>y \<ge> 5\<close>.
\<close>

theorem subject_filter_result:
  assumes "wf_snapshot data"
  shows "subject_filter depthFraction heightFraction data =
           (concat (map (flat \<circ> fst) (kept depthFraction heightFraction data)),
            concat (map (flat \<circ> snd) (kept depthFraction heightFraction data))) \<and>
         (spans_cube (points_of (positions data)) \<longrightarrow>
            filter_trackball data =
              (concat (map (flat \<circ> fst) (filter in_subject_region (vertices_of data))),
               concat (map (flat \<circ> snd) (filter in_subject_region (vertices_of data)))))"
proof -
  have "kept 0.75 0.5 data = filter in_subject_region (vertices_of data)"
    if "spans_cube (points_of (positions data))"
    unfolding kept_def using keeps_cube[OF that] by simp
  then show ?thesis
    by (simp add: subject_filter_keeps[OF assms] filter_trackball_def)
qed

text \<open>
  On the cube: the corner \<open>(10, 10, 0)\<close>, the boundary point \<open>(5, 5, 7.5)\<close> and the inner
  point are kept, the three points just outside a cut are dropped; with the height
  fraction 0.45 of the orbit variant the point \<open>(5, 4.999, 7.5)\<close> is kept as well.
\<close>

theorem subject_filter_result_witness:
  "wf_snapshot cube_snapshot \<and> spans_cube (points_of (positions cube_snapshot)) \<and>
   filter_trackball cube_snapshot =
     ([10, 10, 0,  5, 5, 7.5,  7, 8, 2], [0.3, 0, 0,  0, 1, 0,  0, 0, 1]) \<and>
   map fst (filter in_subject_region (vertices_of cube_snapshot)) =
     [Vector3 10 10 0, Vector3 5 5 7.5, Vector3 7 8 2] \<and>
   map fst (kept 0.75 0.45 cube_snapshot) =
     [Vector3 10 10 0, Vector3 5 5 7.5, Vector3 5 4.999 7.5, Vector3 7 8 2] \<and>
   filter_orbit cube_snapshot =
     ([10, 10, 0,  5, 5, 7.5,  5, 4.999, 7.5,  7, 8, 2],
      [0.3, 0, 0,  0, 1, 0,  0, 0.8, 0,  0, 0, 1])"
proof -
  have w: "wf_snapshot cube_snapshot" by code_simp
  have c: "spans_cube (points_of (positions cube_snapshot))" by code_simp
  have e: "map fst (filter in_subject_region (vertices_of cube_snapshot)) =
     [Vector3 10 10 0, Vector3 5 5 7.5, Vector3 7 8 2]"
    "map fst (kept 0.75 0.45 cube_snapshot) =
     [Vector3 10 10 0, Vector3 5 5 7.5, Vector3 5 4.999 7.5, Vector3 7 8 2]"
    "filter_trackball cube_snapshot =
     ([10, 10, 0,  5, 5, 7.5,  7, 8, 2], [0.3, 0, 0,  0, 1, 0,  0, 0, 1])"
    "filter_orbit cube_snapshot =
     ([10, 10, 0,  5, 5, 7.5,  5, 4.999, 7.5,  7, 8, 2],
      [0.3, 0, 0,  0, 1, 0,  0, 0.8, 0,  0, 0, 1])"
    by code_simp+
  from subject_filter_result[OF w, of "0.75" "0.5"] w c e show ?thesis by simp
qed

section \<open>Proofs: framing\<close>

lemma framing_box:
  assumes "points_of ps \<noteq> []"
  shows "getCenter (computeBoundingBox ps) = box_center (points_of ps)"
    and "maxDim_of (getSize (computeBoundingBox ps)) = box_maxDim (points_of ps)"
  unfolding computeBoundingBox_points[OF assms] box_center_def box_maxDim_def maxDim_of_def
  by (simp_all add: max.commute max.left_commute)

subsection \<open>The update of the orbit controls\<close>

lemma sin_cos_atan2:
  assumes "x \<noteq> 0 \<or> z \<noteq> 0"
  shows "sin (atan2 x z) = x / sqrt (x * x + z * z)"
    and "cos (atan2 x z) = z / sqrt (x * x + z * z)"
proof -
  have both: "sin (atan2 x z) = x / sqrt (x * x + z * z) \<and>
      cos (atan2 x z) = z / sqrt (x * x + z * z)"
  proof (cases "z = 0")
    case True
    with assms have "x \<noteq> 0" by simp
    then show ?thesis using True
      by (auto simp: atan2_def real_sqrt_mult_self abs_if)
  next
    case False
    have h: "sqrt (x * x + z * z) = \<bar>z\<bar> * sqrt (1 + (x / z)\<^sup>2)"
    proof -
      have "x * x + z * z = z\<^sup>2 * (1 + (x / z)\<^sup>2)"
        using False by (simp add: field_simps power2_eq_square)
      then show ?thesis by (simp add: real_sqrt_mult)
    qed
    have pos: "0 < sqrt (1 + (x / z)\<^sup>2)"
      by (metis add_pos_nonneg less_numeral_extra(1) real_sqrt_gt_zero zero_le_power2)
    show ?thesis
      using False pos unfolding h
      by (auto simp: atan2_def sin_arctan cos_arctan abs_if field_simps)
  qed
  then show "sin (atan2 x z) = x / sqrt (x * x + z * z)"
    and "cos (atan2 x z) = z / sqrt (x * x + z * z)" by simp_all
qed


lemma setFromVector3_safe:
  assumes "0 \<le> y" and "4 * (y * y) \<le> x * x + y * y + z * z" and "x * x + y * y + z * z \<noteq> 0"
  shows "setFromSpherical
           (makeSafe ((setFromVector3 (Vector3 x y z))
              \<lparr>sph_theta := atan2 x z + t,
               sph_phi := max 0 (min pi (sph_phi (setFromVector3 (Vector3 x y z))))\<rparr>)) =
         Vector3 (x * cos t + z * sin t) y (z * cos t - x * sin t)"
proof -
  define r where "r = sqrt (x * x + y * y + z * z)"
  define h where "h = sqrt (x * x + z * z)"
  have r2: "r * r = x * x + y * y + z * z" unfolding r_def
    by (metis add_nonneg_nonneg real_sqrt_mult_self abs_of_nonneg zero_le_square)
  have rpos: "0 < r" unfolding r_def using assms(3)
    by (metis add_nonneg_nonneg less_eq_real_def real_sqrt_gt_zero zero_le_square)
  have h2: "h * h = x * x + z * z" unfolding h_def
    by (metis add_nonneg_nonneg real_sqrt_mult_self abs_of_nonneg zero_le_square)
  have "(2 * y)\<^sup>2 \<le> r\<^sup>2" using assms(2) r2 by (simp add: power2_eq_square)
  from power2_le_imp_le[OF this] rpos have y2r: "2 * y \<le> r" by simp
  have xz: "x \<noteq> 0 \<or> z \<noteq> 0"
  proof (rule ccontr)
    assume "\<not> ?thesis"
    then have "x = 0" "z = 0" by simp_all
    with assms(2) have "y * y \<le> 0" by simp
    moreover have "0 \<le> y * y" by simp
    ultimately have "y * y = 0" by linarith
    then have "y = 0" by simp
    with \<open>x = 0\<close> \<open>z = 0\<close> assms(3) show False by simp
  qed
  then have "x * x + z * z \<noteq> 0"
    by (metis add_nonneg_eq_0_iff mult_eq_0_iff zero_le_square)
  then have hpos: "0 < h" unfolding h_def
    by (metis add_nonneg_nonneg less_eq_real_def real_sqrt_gt_zero zero_le_square)
  define q where "q = y / r"
  have q: "0 \<le> q" "q \<le> 1 / 2" using assms(1) rpos y2r by (simp_all add: q_def field_simps)
  have cl: "clamp q (- 1) 1 = q" using q by (simp add: clamp_def)
  define p where "p = arccos q"
  have p_hi: "p \<le> pi / 2" unfolding p_def using q by (intro arccos_le_pi2) simp_all
  have "arccos (1 / 2) \<le> arccos q" using q by (subst arccos_le_mono) simp_all
  then have p_lo: "pi / 3 \<le> p" by (simp add: p_def arccos_one_half)
  have pi3: "2 \<le> pi" by (rule pi_ge_two)
  have eps: "EPS \<le> p" "p \<le> pi - EPS" "0 \<le> p" "p \<le> pi"
    using p_lo p_hi pi3 by (simp_all add: EPS_def)
  have sv: "setFromVector3 (Vector3 x y z) =
      \<lparr>sph_radius = r, sph_phi = p, sph_theta = atan2 x z\<rparr>"
    using rpos by (simp add: setFromVector3_def Let_def r_def[symmetric] q_def[symmetric] cl p_def)
  have cosp: "cos p * r = y"
    unfolding p_def using q rpos by (simp add: cos_arccos q_def)
  have "sin p = sqrt (1 - q\<^sup>2)" unfolding p_def using q by (intro sin_arccos) simp_all
  also have "1 - q\<^sup>2 = (h / r)\<^sup>2"
  proof -
    have "r * r - y * y = h * h" unfolding r2 h2 by simp
    then have "(r * r - y * y) / (r * r) = h * h / (r * r)" by simp
    moreover have "(r * r - y * y) / (r * r) = 1 - y * y / (r * r)"
      using rpos by (simp add: diff_divide_distrib)
    ultimately show ?thesis by (simp add: q_def power2_eq_square)
  qed
  also have "sqrt ((h / r)\<^sup>2) = h / r" using hpos rpos by simp
  finally have sinp: "sin p * r = h" using rpos by simp
  have st: "sin (atan2 x z) = x / h" "cos (atan2 x z) = z / h"
    using sin_cos_atan2[OF xz] by (simp_all add: h_def)
  have "setFromSpherical
           (makeSafe ((setFromVector3 (Vector3 x y z))
              \<lparr>sph_theta := atan2 x z + t,
               sph_phi := max 0 (min pi (sph_phi (setFromVector3 (Vector3 x y z))))\<rparr>)) =
        Vector3 (h * sin (atan2 x z + t)) y (h * cos (atan2 x z + t))"
    using eps by (simp add: sv makeSafe_def clamp_def setFromSpherical_def Let_def cosp sinp)
  also have "h * sin (atan2 x z + t) = x * cos t + z * sin t"
    using hpos by (simp add: sin_add st field_simps)
  also have "h * cos (atan2 x z + t) = z * cos t - x * sin t"
    using hpos by (simp add: cos_add st field_simps)
  finally show ?thesis .
qed

lemma setFromVector3_zero:
  "setFromSpherical
           (makeSafe ((setFromVector3 (Vector3 0 0 0))
              \<lparr>sph_theta := sph_theta (setFromVector3 (Vector3 0 0 0)) + t,
               sph_phi := max 0 (min pi (sph_phi (setFromVector3 (Vector3 0 0 0))))\<rparr>)) =
         Vector3 0 0 0"
  by (simp add: setFromVector3_def makeSafe_def setFromSpherical_def Let_def)

lemma orbit_about_Y:
  "orbit_about (Vector3 0 1 0) t c p =
     Vector3 (vx c + ((vx p - vx c) * cos t + (vz p - vz c) * sin t)) (vy p)
       (vz c + ((vz p - vz c) * cos t - (vx p - vx c) * sin t))"
  by (simp add: orbit_about_def rotate_about_def vadd_def vsub_def scale_def cross_def dot_def
      algebra_simps)

lemma orbit_update_position:
  assumes "vy (orbit_target s) \<le> vy (camera_position s)"
    and "4 * ((vy (camera_position s) - vy (orbit_target s)) *
              (vy (camera_position s) - vy (orbit_target s))) \<le>
         (vx (camera_position s) - vx (orbit_target s)) *
           (vx (camera_position s) - vx (orbit_target s)) +
         (vy (camera_position s) - vy (orbit_target s)) *
           (vy (camera_position s) - vy (orbit_target s)) +
         (vz (camera_position s) - vz (orbit_target s)) *
           (vz (camera_position s) - vz (orbit_target s))"
  shows "camera_position (orbit_update s) =
           orbit_about (Vector3 0 1 0) (pending_turn s) (orbit_target s) (camera_position s)"
proof -
  define x where "x = vx (camera_position s) - vx (orbit_target s)"
  define y where "y = vy (camera_position s) - vy (orbit_target s)"
  define z where "z = vz (camera_position s) - vz (orbit_target s)"
  have a: "0 \<le> y" "4 * (y * y) \<le> x * x + y * y + z * z"
    using assms by (simp_all add: x_def y_def z_def)
  define T where "T = orbit_target s"
  define t where "t = pending_turn s"
  define off where "off = setFromSpherical
           (makeSafe ((setFromVector3 (Vector3 x y z))
              \<lparr>sph_theta := sph_theta (setFromVector3 (Vector3 x y z)) + t,
               sph_phi := max 0 (min pi (sph_phi (setFromVector3 (Vector3 x y z))))\<rparr>))"
  have upd: "camera_position (orbit_update s) =
      Vector3 (vx T + vx off) (vy T + vy off) (vz T + vz off)"
    by (simp add: orbit_update_def Let_def pending_turn_def x_def y_def z_def T_def t_def
        off_def)
  have "off = Vector3 (x * cos t + z * sin t) y (z * cos t - x * sin t)"
  proof (cases "x * x + y * y + z * z = 0")
    case True
    then have "x = 0 \<and> y = 0 \<and> z = 0"
      by (metis add_nonneg_eq_0_iff add_nonneg_nonneg mult_eq_0_iff zero_le_square)
    then show ?thesis unfolding off_def by (simp add: setFromVector3_zero)
  next
    case False
    have sv: "sph_theta (setFromVector3 (Vector3 x y z)) = atan2 x z"
      using False by (simp add: setFromVector3_def Let_def)
    show ?thesis unfolding off_def sv by (rule setFromVector3_safe[OF a False])
  qed
  then show ?thesis
    unfolding upd orbit_about_Y
    by (simp add: x_def y_def z_def T_def t_def)
qed


lemma box_maxDim_nonneg:
  assumes "pts \<noteq> []"
  shows "0 \<le> box_maxDim pts"
proof -
  from assms obtain p where p: "p \<in> set pts" by (cases pts) auto
  have "Min (vx ` set pts) \<le> vx p" using p by (intro Min_le) simp_all
  also have "vx p \<le> Max (vx ` set pts)" using p by (intro Max_ge) simp_all
  finally have "Min (vx ` set pts) \<le> Max (vx ` set pts)" .
  then have "0 \<le> Max (vx ` set pts) - Min (vx ` set pts)" by simp
  also have "\<dots> \<le> box_maxDim pts" unfolding box_maxDim_def by (intro Max_ge) simp_all
  finally show ?thesis .
qed

lemma frame_orbit_set_eq:
  assumes "points_of ps \<noteq> []"
  shows "frame_orbit_set ps s =
           s\<lparr>orbit_target := box_center (points_of ps),
             camera_position :=
               Vector3 (vx (box_center (points_of ps)) + (- 0.1) * box_maxDim (points_of ps))
                       (vy (box_center (points_of ps)) + 0.25 * box_maxDim (points_of ps))
                       (vz (box_center (points_of ps)) + 1.6 * box_maxDim (points_of ps)),
             camera_lookAt := Some (box_center (points_of ps))\<rparr>"
  by (simp add: frame_orbit_set_def Let_def framing_box[OF assms])

lemma orbit_update_keeps:
  "orbit_target (orbit_update s) = orbit_target s"
  "camera_up (orbit_update s) = camera_up s"
  "camera_lookAt (orbit_update s) = Some (orbit_target s)"
  "autoRotate (orbit_update s) = autoRotate s"
  "sphericalDelta_theta (orbit_update s) =
     (if autoRotate s then sphericalDelta_theta s - getAutoRotationAngle
      else sphericalDelta_theta s) * (1 - dampingFactor)"
  by (simp_all add: orbit_update_def Let_def)

lemma frame_orbit_revolved:
  assumes "points_of ps \<noteq> []"
  shows "camera_position (frame_orbit ps s) =
           orbit_about (Vector3 0 1 0) (pending_turn s) (box_center (points_of ps))
             (camera_position (frame_orbit_set ps s))"
proof -
  define m where "m = box_maxDim (points_of ps)"
  have m: "0 \<le> m" unfolding m_def by (rule box_maxDim_nonneg[OF assms])
  let ?s1 = "frame_orbit_set ps s"
  have y: "vy (orbit_target ?s1) \<le> vy (camera_position ?s1)"
    using m by (simp add: frame_orbit_set_eq[OF assms] m_def[symmetric])
  have "4 * ((0.25 * m) * (0.25 * m)) \<le>
      (- 0.1 * m) * (- 0.1 * m) + (0.25 * m) * (0.25 * m) + (1.6 * m) * (1.6 * m)"
  proof -
    have "0 \<le> m * m" by simp
    then show ?thesis by (simp add: algebra_simps)
  qed
  then have r: "4 * ((vy (camera_position ?s1) - vy (orbit_target ?s1)) *
              (vy (camera_position ?s1) - vy (orbit_target ?s1))) \<le>
         (vx (camera_position ?s1) - vx (orbit_target ?s1)) *
           (vx (camera_position ?s1) - vx (orbit_target ?s1)) +
         (vy (camera_position ?s1) - vy (orbit_target ?s1)) *
           (vy (camera_position ?s1) - vy (orbit_target ?s1)) +
         (vz (camera_position ?s1) - vz (orbit_target ?s1)) *
           (vz (camera_position ?s1) - vz (orbit_target ?s1))"
    by (simp add: frame_orbit_set_eq[OF assms] m_def[symmetric])
  have t: "pending_turn ?s1 = pending_turn s" "orbit_target ?s1 = box_center (points_of ps)"
    by (simp_all add: frame_orbit_set_eq[OF assms] pending_turn_def)
  have "camera_position (frame_orbit ps s) = camera_position (orbit_update ?s1)"
    by (simp add: frame_orbit_def Let_def)
  also note orbit_update_position[OF y r]
  finally show ?thesis unfolding t .
qed

lemma unit_box_facts:
  "points_of unit_box \<noteq> []" "box_center (points_of unit_box) = Vector3 0 0 0"
  "box_maxDim (points_of unit_box) = 1"
  by code_simp+

lemma initial_turn:
  "pending_turn initial_orbit_viewer = - (0.08 * getAutoRotationAngle)"
  by (simp add: pending_turn_def initial_orbit_viewer_def dampingFactor_def)

lemma first_frame_facts:
  "camera_up first_frame_viewer = Vector3 0 1 0"
  "autoRotate first_frame_viewer"
  "pending_turn first_frame_viewer = - (0.1536 * getAutoRotationAngle)"
  by (simp_all add: first_frame_viewer_def animate_orbit_def orbit_update_keeps
      pending_turn_def initial_orbit_viewer_def dampingFactor_def)

lemma small_turn_moves:
  assumes "0 < u" and "u < pi"
  shows "orbit_about (Vector3 0 1 0) (- u) (Vector3 0 0 0) (Vector3 (- 0.1) 0.25 1.6) \<noteq>
         Vector3 (- 0.1) 0.25 1.6"
proof
  assume e: "orbit_about (Vector3 0 1 0) (- u) (Vector3 0 0 0) (Vector3 (- 0.1) 0.25 1.6) =
         Vector3 (- 0.1) 0.25 1.6"
  have sx: "- 0.1 * cos u - 1.6 * sin u = - 0.1" and sz: "1.6 * cos u - 0.1 * sin u = (1.6::real)"
    using e unfolding orbit_about_Y by simp_all
  have "(1.6 * 1.6 + 0.1 * 0.1) * sin u = - (1.6 * (- 0.1 * cos u - 1.6 * sin u)) -
      0.1 * (1.6 * cos u - 0.1 * sin u)"
    by (simp add: algebra_simps)
  also have "\<dots> = 0" unfolding sx sz by simp
  finally have "sin u = 0" by simp
  with sin_gt_zero[OF assms] show False by simp
qed

subsection \<open>C5: the framing of the orbit variant\<close>

text \<open>
  C5, as amended. For every non-empty point set with bounding-box centre \<open>c\<close> and largest
  extent \<open>maxDim\<close>, the framing block of the orbit variant, run on a camera whose up
  vector is the default \<open>+Y\<close> (nothing in this variant assigns to it), sets the target to
  \<open>c\<close> and the position to \<open>c + (-0.1 * maxDim, 0.25 * maxDim, 1.6 * maxDim)\<close>, leaves the up vector
  at \<open>+Y\<close> and points the camera at \<open>c\<close>; when \<open>c\<close> is the origin and \<open>maxDim = 1\<close> that
  position is \<open>(-0.1, 0.25, 1.6)\<close>, looking at the origin. The update of the controls that
  ends the block keeps the target, the up vector and the point looked at, and revolves
  the position about the vertical axis through \<open>c\<close> by the azimuth that the controls
  apply in that update; the pose after the update is the one stored as the initial pose.
\<close>

theorem frame_orbit_pose:
  assumes "points_of ps \<noteq> []" and "camera_up s = Vector3 0 1 0"
  shows "orbit_target (frame_orbit_set ps s) = box_center (points_of ps) \<and>
         camera_up (frame_orbit_set ps s) = Vector3 0 1 0 \<and>
         camera_position (frame_orbit_set ps s) =
           Vector3 (vx (box_center (points_of ps)) + (- 0.1) * box_maxDim (points_of ps))
                   (vy (box_center (points_of ps)) + 0.25 * box_maxDim (points_of ps))
                   (vz (box_center (points_of ps)) + 1.6 * box_maxDim (points_of ps)) \<and>
         camera_lookAt (frame_orbit_set ps s) = Some (box_center (points_of ps)) \<and>
         (box_center (points_of ps) = Vector3 0 0 0 \<and> box_maxDim (points_of ps) = 1 \<longrightarrow>
            camera_position (frame_orbit_set ps s) = Vector3 (- 0.1) 0.25 1.6 \<and>
            camera_lookAt (frame_orbit_set ps s) = Some (Vector3 0 0 0)) \<and>
         orbit_target (frame_orbit ps s) = box_center (points_of ps) \<and>
         camera_up (frame_orbit ps s) = Vector3 0 1 0 \<and>
         camera_lookAt (frame_orbit ps s) = Some (box_center (points_of ps)) \<and>
         camera_position (frame_orbit ps s) =
           orbit_about (Vector3 0 1 0) (pending_turn s) (box_center (points_of ps))
             (camera_position (frame_orbit_set ps s)) \<and>
         initialPos (frame_orbit ps s) = Some (camera_position (frame_orbit ps s)) \<and>
         initialTarget (frame_orbit ps s) = Some (box_center (points_of ps))"
proof -
  have a: "orbit_target (frame_orbit_set ps s) = box_center (points_of ps)"
    "camera_up (frame_orbit_set ps s) = Vector3 0 1 0"
    "camera_position (frame_orbit_set ps s) =
           Vector3 (vx (box_center (points_of ps)) + (- 0.1) * box_maxDim (points_of ps))
                   (vy (box_center (points_of ps)) + 0.25 * box_maxDim (points_of ps))
                   (vz (box_center (points_of ps)) + 1.6 * box_maxDim (points_of ps))"
    "camera_lookAt (frame_orbit_set ps s) = Some (box_center (points_of ps))"
    using assms(2) by (simp_all add: frame_orbit_set_eq[OF assms(1)])
  have b: "orbit_target (frame_orbit ps s) = box_center (points_of ps)"
    "camera_up (frame_orbit ps s) = Vector3 0 1 0"
    "camera_lookAt (frame_orbit ps s) = Some (box_center (points_of ps))"
    "initialPos (frame_orbit ps s) = Some (camera_position (frame_orbit ps s))"
    "initialTarget (frame_orbit ps s) = Some (box_center (points_of ps))"
    by (simp_all add: frame_orbit_def Let_def orbit_update_keeps a)
  have c: "box_center (points_of ps) = Vector3 0 0 0 \<and> box_maxDim (points_of ps) = 1 \<longrightarrow>
            camera_position (frame_orbit_set ps s) = Vector3 (- 0.1) 0.25 1.6 \<and>
            camera_lookAt (frame_orbit_set ps s) = Some (Vector3 0 0 0)"
    unfolding a by simp
  show ?thesis
    using a b c frame_orbit_revolved[OF assms(1), of s] by (simp only: simp_thms)
qed

text \<open>
  The unit box centred at the origin, framed before any frame has run: the block sets the
  position \<open>(-0.1, 0.25, 1.6)\<close>, and the update revolves it by \<open>-0.08\<close> times the
  auto-rotation angle.
\<close>

theorem frame_orbit_pose_witness:
  "points_of unit_box \<noteq> [] \<and> camera_up initial_orbit_viewer = Vector3 0 1 0 \<and>
   box_center (points_of unit_box) = Vector3 0 0 0 \<and> box_maxDim (points_of unit_box) = 1 \<and>
   orbit_target (frame_orbit_set unit_box initial_orbit_viewer) = Vector3 0 0 0 \<and>
   camera_up (frame_orbit_set unit_box initial_orbit_viewer) = Vector3 0 1 0 \<and>
   camera_position (frame_orbit_set unit_box initial_orbit_viewer) = Vector3 (- 0.1) 0.25 1.6 \<and>
   camera_lookAt (frame_orbit_set unit_box initial_orbit_viewer) = Some (Vector3 0 0 0) \<and>
   orbit_target (frame_orbit unit_box initial_orbit_viewer) = Vector3 0 0 0 \<and>
   camera_up (frame_orbit unit_box initial_orbit_viewer) = Vector3 0 1 0 \<and>
   camera_lookAt (frame_orbit unit_box initial_orbit_viewer) = Some (Vector3 0 0 0) \<and>
   camera_position (frame_orbit unit_box initial_orbit_viewer) =
     orbit_about (Vector3 0 1 0) (- (0.08 * getAutoRotationAngle)) (Vector3 0 0 0)
       (Vector3 (- 0.1) 0.25 1.6) \<and>
   initialPos (frame_orbit unit_box initial_orbit_viewer) =
     Some (orbit_about (Vector3 0 1 0) (- (0.08 * getAutoRotationAngle)) (Vector3 0 0 0)
       (Vector3 (- 0.1) 0.25 1.6)) \<and>
   initialTarget (frame_orbit unit_box initial_orbit_viewer) = Some (Vector3 0 0 0)"
proof -
  have u: "camera_up initial_orbit_viewer = Vector3 0 1 0"
    by (simp add: initial_orbit_viewer_def)
  from frame_orbit_pose[OF unit_box_facts(1) u] unit_box_facts u initial_turn
  show ?thesis by simp
qed

text \<open>
  The pose after the block, which is the stored initial pose, is not the pose that the
  block sets: for the unit box centred at the origin, framed after the one frame that runs
  when the component mounts, the position has been revolved by \<open>-0.1536\<close> times the
  auto-rotation angle and is not \<open>(-0.1, 0.25, 1.6)\<close>.
\<close>

theorem stored_pose_counterexample:
  "points_of unit_box \<noteq> [] \<and> camera_up first_frame_viewer = Vector3 0 1 0 \<and>
   box_center (points_of unit_box) = Vector3 0 0 0 \<and> box_maxDim (points_of unit_box) = 1 \<and>
   camera_position (frame_orbit unit_box first_frame_viewer) =
     orbit_about (Vector3 0 1 0) (- (0.1536 * getAutoRotationAngle)) (Vector3 0 0 0)
       (Vector3 (- 0.1) 0.25 1.6) \<and>
   camera_position (frame_orbit unit_box first_frame_viewer) \<noteq> Vector3 (- 0.1) 0.25 1.6 \<and>
   initialPos (frame_orbit unit_box first_frame_viewer) \<noteq> Some (Vector3 (- 0.1) 0.25 1.6)"
proof -
  have p: "camera_position (frame_orbit_set unit_box first_frame_viewer) =
      Vector3 (- 0.1) 0.25 1.6"
    by (simp add: frame_orbit_set_eq[OF unit_box_facts(1)] unit_box_facts)
  have e: "camera_position (frame_orbit unit_box first_frame_viewer) =
     orbit_about (Vector3 0 1 0) (- (0.1536 * getAutoRotationAngle)) (Vector3 0 0 0)
       (Vector3 (- 0.1) 0.25 1.6)"
    using frame_orbit_revolved[OF unit_box_facts(1), of first_frame_viewer]
    by (simp only: p first_frame_facts unit_box_facts)
  have "(0::real) < 0.1536 * getAutoRotationAngle"
    by (simp add: getAutoRotationAngle_def autoRotateSpeed_def)
  moreover have "0.1536 * getAutoRotationAngle < pi"
    using pi_gt_zero by (simp add: getAutoRotationAngle_def autoRotateSpeed_def)
  ultimately have n: "camera_position (frame_orbit unit_box first_frame_viewer) \<noteq>
      Vector3 (- 0.1) 0.25 1.6"
    unfolding e by (rule small_turn_moves)
  have i: "initialPos (frame_orbit unit_box first_frame_viewer) =
      Some (camera_position (frame_orbit unit_box first_frame_viewer))"
    by (simp add: frame_orbit_def Let_def)
  show ?thesis using unit_box_facts first_frame_facts(1) e n unfolding i by simp
qed

subsection \<open>C6: the framing of the trackball variant\<close>

text \<open>
  C6. For every non-empty point set with bounding-box centre \<open>c\<close> and largest extent
  \<open>maxDim\<close>, the framing block of the trackball variant sets the up vector to \<open>+Z\<close>, the
  target to \<open>c\<close> and the position to \<open>c + (-0.5 * maxDim, -2.8 * maxDim, 0)\<close>, and leaves the
  camera looking at \<open>c\<close>.
\<close>

theorem frame_trackball_pose:
  assumes "points_of ps \<noteq> []"
  shows "controls_target (frame_trackball ps s) = box_center (points_of ps) \<and>
         cam_up (frame_trackball ps s) = Vector3 0 0 1 \<and>
         cam_position (frame_trackball ps s) =
           Vector3 (vx (box_center (points_of ps)) + (- 0.5) * box_maxDim (points_of ps))
                   (vy (box_center (points_of ps)) + (- 2.8) * box_maxDim (points_of ps))
                   (vz (box_center (points_of ps)) + 0) \<and>
         cam_lookAt (frame_trackball ps s) = Some (box_center (points_of ps))"
  by (simp add: frame_trackball_def Let_def framing_box[OF assms(1)])

theorem frame_trackball_pose_witness:
  "points_of unit_box \<noteq> [] \<and>
   box_center (points_of unit_box) = Vector3 0 0 0 \<and> box_maxDim (points_of unit_box) = 1 \<and>
   controls_target (frame_trackball unit_box initial_viewer) = Vector3 0 0 0 \<and>
   cam_up (frame_trackball unit_box initial_viewer) = Vector3 0 0 1 \<and>
   cam_position (frame_trackball unit_box initial_viewer) = Vector3 (- 0.5) (- 2.8) 0 \<and>
   cam_lookAt (frame_trackball unit_box initial_viewer) = Some (Vector3 0 0 0)"
proof -
  have a: "points_of unit_box \<noteq> []"
    "box_center (points_of unit_box) = Vector3 0 0 0" "box_maxDim (points_of unit_box) = 1"
    by code_simp+
  from frame_trackball_pose[OF a(1), of initial_viewer] a show ?thesis by simp
qed

section \<open>Proofs: the manual auto-rotation\<close>

lemma framed_trackball_viewer_eq:
  "framed_trackball_viewer =
     \<lparr>cam_position = Vector3 (- 0.5) (- 2.8) 0, cam_up = Vector3 0 0 1,
      cam_lookAt = Some (Vector3 0 0 0), controls_target = Vector3 0 0 0, autoRotating = True\<rparr>"
  by code_simp

lemma sin_small_pos: "0 < sin (0.0005 :: real)"
proof -
  have "(0.0005 :: real) < 2" by simp
  from this pi_ge_two have "(0.0005 :: real) < pi" by (rule less_le_trans)
  then show ?thesis by (intro sin_gt_zero) simp_all
qed

subsection \<open>C9: one frame of the trackball variant\<close>

text \<open>
  C9, as amended. On a frame where \<^verbatim>\<open>autoRotating\<close> is set, the camera position is rotated
  around the controls' target by 0.0005 rad about the world Y axis (the sense that takes
  \<open>+X\<close> towards \<open>+Z\<close>, which is the right-handed rotation by \<open>-0.0005\<close> about \<open>+Y\<close>),
  whatever the camera's up vector is, and the controller's update runs on the rotated
  state; on a frame where the flag is not set, the update runs on the unchanged state.
\<close>

theorem autorotate_about_world_Y:
  "(autoRotating s \<longrightarrow>
      animate controls_update s =
        controls_update
          (s\<lparr>cam_position :=
               orbit_about (Vector3 0 1 0) (- 0.0005) (controls_target s) (cam_position s)\<rparr>)) \<and>
   (\<not> autoRotating s \<longrightarrow> animate controls_update s = controls_update s)"
  by (simp add: animate_def autorotate_def Let_def orbit_about_def rotate_about_def vadd_def
      vsub_def scale_def dot_def cross_def algebra_simps)

theorem autorotate_about_world_Y_witness:
  "autoRotating framed_trackball_viewer \<and>
   animate id framed_trackball_viewer =
     framed_trackball_viewer
       \<lparr>cam_position := Vector3 (- 0.5 * cos 0.0005) (- 2.8) (- 0.5 * sin 0.0005)\<rparr>"
  using autorotate_about_world_Y[of framed_trackball_viewer id]
  by (simp add: framed_trackball_viewer_eq orbit_about_def rotate_about_def vadd_def
      vsub_def scale_def dot_def cross_def algebra_simps)

text \<open>
  C9 as stated fails after framing: the trackball variant's framing sets the up vector to
  \<open>+Z\<close>, and the rotation of the frame callback is not a rotation about that axis, in
  either sense: it changes the component of the camera's offset along the up vector.
\<close>

theorem up_axis_counterexample:
  "autoRotating framed_trackball_viewer \<and>
   cam_up framed_trackball_viewer = Vector3 0 0 1 \<and>
   cam_position (autorotate framed_trackball_viewer) \<noteq>
     orbit_about (cam_up framed_trackball_viewer) 0.0005
       (controls_target framed_trackball_viewer) (cam_position framed_trackball_viewer) \<and>
   cam_position (autorotate framed_trackball_viewer) \<noteq>
     orbit_about (cam_up framed_trackball_viewer) (- 0.0005)
       (controls_target framed_trackball_viewer) (cam_position framed_trackball_viewer) \<and>
   dot (cam_up framed_trackball_viewer)
       (vsub (cam_position (autorotate framed_trackball_viewer))
             (controls_target framed_trackball_viewer)) \<noteq>
   dot (cam_up framed_trackball_viewer)
       (vsub (cam_position framed_trackball_viewer) (controls_target framed_trackball_viewer))"
  using sin_small_pos
  by (simp add: framed_trackball_viewer_eq autorotate_def Let_def orbit_about_def
      rotate_about_def vadd_def vsub_def scale_def dot_def cross_def)

section \<open>Proofs: the annotation overlay\<close>

lemma build_loop_append:
  "build_loop anns annGroup = annGroup @ concat (map build_annotation anns)"
  by (induction anns arbitrary: annGroup) simp_all

lemma build_annotations_concat:
  "build_annotations anns = concat (map build_annotation anns)"
  by (simp add: build_annotations_def build_loop_append)

lemma build_annotation_empty_iff: "build_annotation ann = [] \<longleftrightarrow> skipped ann"
  by (auto simp: build_annotation_def skipped_def Let_def split: option.splits)

subsection \<open>C8: skipped annotations\<close>

text \<open>
  C8, as amended. In every annotation list, an annotation with no positions, with fewer
  than three values, a freehand with fewer than six values (such as
  \<^verbatim>\<open>{type:"freehand", positions:[1,2]}\<close>) or an annotation of an unknown type adds no
  primitive, and the primitives built for the list are those built for the annotations
  before it followed by those built for the annotations after it. The loop has no
  operation that throws on a value of the interface \<^verbatim>\<open>Annotation\<close>.
\<close>

theorem skipped_annotation:
  assumes "skipped ann"
  shows "build_annotation ann = [] \<and>
         build_annotations (before @ ann # after) =
           build_annotations before @ build_annotations after"
  using assms by (simp add: build_annotations_concat build_annotation_empty_iff)

theorem skipped_annotation_witness:
  "skipped too_short_freehand \<and>
   build_annotation too_short_freehand = [] \<and>
   build_annotations ([sample_point] @ too_short_freehand # [sample_freehand]) =
     [Mesh 0.15 (Vector3 1 2 3) (1, 0, 0.2) 0.7,
      Line [(Some 0, Some 0, Some 0), (Some 1, Some 1, Some 1)] (1, 0.4, 0.4) 0.8] \<and>
   build_annotations [sample_point] @ build_annotations [sample_freehand] =
     [Mesh 0.15 (Vector3 1 2 3) (1, 0, 0.2) 0.7,
      Line [(Some 0, Some 0, Some 0), (Some 1, Some 1, Some 1)] (1, 0.4, 0.4) 0.8]"
proof -
  have s: "skipped too_short_freehand"
    by (simp add: skipped_def too_short_freehand_def)
  have b: "build_annotations [sample_point] @ build_annotations [sample_freehand] =
     [Mesh 0.15 (Vector3 1 2 3) (1, 0, 0.2) 0.7,
      Line [(Some 0, Some 0, Some 0), (Some 1, Some 1, Some 1)] (1, 0.4, 0.4) 0.8]"
    by (simp add: build_annotations_def build_annotation_def annotation_color_def
        sample_point_def sample_freehand_def)
  from skipped_annotation[OF s, of "[sample_point]" "[sample_freehand]"] s b
  show ?thesis by simp
qed

text \<open>
  C8 as stated fails for a freehand whose number of values is at least six and not a
  multiple of 3: the loop tests \<^verbatim>\<open>length >= 6\<close> only, and seven values build a line of
  three points, the last one with two undefined coordinates.
\<close>

theorem ragged_freehand_counterexample:
  "freehand_invalid ragged_freehand \<and>
   build_annotations [ragged_freehand] =
     [Line [(Some 0, Some 0, Some 0), (Some 1, Some 1, Some 1), (Some 2, None, None)]
        (1, 0.4, 0.4) 0.8] \<and>
   build_annotations [ragged_freehand] \<noteq> []"
  by (simp add: freehand_invalid_def ragged_freehand_def build_annotations_def
      build_annotation_def annotation_color_def)

end
